theory Spec2Isabelle
  imports Main "HOL-Library.AList"
begin

section \<open>JavaScript values and library functions used by lib/prepare.js\<close>

text \<open>
  A JavaScript string that may be \<open>undefined\<close> (or \<open>null\<close>) is a \<open>string option\<close>;
  strings are ASCII character lists. A value is falsy when it is undefined or the empty
  string; a number is falsy when it is undefined or zero.
\<close>

definition truthy :: "string option \<Rightarrow> bool" where
  "truthy v = (case v of None \<Rightarrow> False | Some s \<Rightarrow> s \<noteq> [])"

definition truthy_num :: "int option \<Rightarrow> bool" where
  "truthy_num v = (case v of None \<Rightarrow> False | Some n \<Rightarrow> n \<noteq> 0)"

text \<open>
  The errors thrown by the modelled functions. \<open>OutsideModel\<close> is no JavaScript error: it
  marks the one input on which the model stops instead of following the program (see
  \<open>for_in\<close> below).
\<close>

datatype error = CordovaError string | TypeError string | OutsideModel string

text \<open>Events sent to \<open>events.emit\<close>: the severity and the message.\<close>

datatype severity = Verbose | Warn

type_synonym event = "severity \<times> string"

subsection \<open>Numbers as text\<close>

definition digit_char :: "nat \<Rightarrow> char" where
  "digit_char n = ''0123456789'' ! (n mod 10)"

fun decimal :: "nat \<Rightarrow> string" where
  "decimal n = (if n div 10 = 0 then [digit_char n] else decimal (n div 10) @ [digit_char n])"

declare decimal.simps [simp del]

text \<open>\<open>'' + n\<close> for an integer \<open>n\<close> (below the magnitude where JavaScript switches to
  exponent notation).\<close>

definition int_text :: "int \<Rightarrow> string" where
  "int_text i = (if 0 \<le> i then decimal (nat i) else CHR ''-'' # decimal (nat (- i)))"

subsection \<open>Strings\<close>

text \<open>\<open>s.startsWith(p)\<close>.\<close>

definition startsWith :: "string \<Rightarrow> string \<Rightarrow> bool" where
  "startsWith s p = (take (length p) s = p)"

text \<open>\<open>s.endsWith(p)\<close>.\<close>

definition endsWith :: "string \<Rightarrow> string \<Rightarrow> bool" where
  "endsWith s p = (length p \<le> length s \<and> drop (length s - length p) s = p)"

text \<open>\<open>xs.join(sep)\<close>.\<close>

fun join :: "string \<Rightarrow> string list \<Rightarrow> string" where
  "join sep [] = []"
| "join sep [x] = x"
| "join sep (x # y # ys) = x @ sep @ join sep (y # ys)"

text \<open>\<open>s.split(c)\<close> for a one-character separator: never empty, \<open>''.split(c)\<close> is
  \<open>['']\<close>.\<close>

fun split :: "char \<Rightarrow> string \<Rightarrow> string list" where
  "split c [] = [[]]"
| "split c (x # xs) =
     (if x = c then [] # split c xs
      else (case split c xs of [] \<Rightarrow> [[x]] | w # ws \<Rightarrow> (x # w) # ws))"

subsection \<open>JSON.stringify on an object of strings\<close>

definition hex_char :: "nat \<Rightarrow> char" where
  "hex_char n = ''0123456789abcdef'' ! (n mod 16)"

definition json_escape_char :: "char \<Rightarrow> string" where
  "json_escape_char c =
     (if c = CHR 0x22 then [CHR 0x5C, CHR 0x22]
      else if c = CHR 0x5C then [CHR 0x5C, CHR 0x5C]
      else if c = CHR 0x08 then [CHR 0x5C, CHR ''b'']
      else if c = CHR 0x0C then [CHR 0x5C, CHR ''f'']
      else if c = CHR 0x0A then [CHR 0x5C, CHR ''n'']
      else if c = CHR 0x0D then [CHR 0x5C, CHR ''r'']
      else if c = CHR 0x09 then [CHR 0x5C, CHR ''t'']
      else if (of_char c :: nat) < 32
        then [CHR 0x5C, CHR ''u'', CHR ''0'', CHR ''0'',
              hex_char ((of_char c :: nat) div 16), hex_char (of_char c :: nat)]
      else [c])"

definition json_quote :: "string \<Rightarrow> string" where
  "json_quote s = [CHR 0x22] @ concat (map json_escape_char s) @ [CHR 0x22]"

definition json_stringify :: "(string \<times> string) list \<Rightarrow> string" where
  "json_stringify obj =
     ''{'' @ join '','' (map (\<lambda>(k, v). json_quote k @ '':'' @ json_quote v) obj) @ ''}''"

section \<open>Icon declarations\<close>

text \<open>
  One entry of \<open>projectConfig.getIcons('android')\<close>. The attributes read by
  lib/prepare.js are the fields; an absent attribute is \<open>None\<close>. Width and height are
  numbers; the model takes them as integers (a number that is no integer resolves to no
  density, like an integer outside the size table).
\<close>

record icon =
  src :: "string option"
  density :: "string option"
  platform :: "string option"
  width :: "int option"
  height :: "int option"
  background :: "string option"
  foreground :: "string option"
  monochrome :: "string option"

section \<open>prepareIcons\<close>

definition SIZE_TO_DENSITY_MAP :: "int \<Rightarrow> string option" where
  "SIZE_TO_DENSITY_MAP n =
     (if n = 36 then Some ''ldpi''
      else if n = 48 then Some ''mdpi''
      else if n = 72 then Some ''hdpi''
      else if n = 96 then Some ''xhdpi''
      else if n = 144 then Some ''xxhdpi''
      else if n = 192 then Some ''xxxhdpi''
      else None)"

text \<open>\<open>icon.density || SIZE_TO_DENSITY_MAP[icon_size]\<close>.\<close>

definition icon_density :: "icon \<Rightarrow> int option \<Rightarrow> string option" where
  "icon_density icon icon_size =
     (if truthy (density icon) then density icon
      else (case icon_size of None \<Rightarrow> None | Some n \<Rightarrow> SIZE_TO_DENSITY_MAP n))"

text \<open>
  \<open>android_icons\<close> is an object keyed by density: an association list in the order the
  keys were created (assigning to an existing key keeps its place).
\<close>

type_synonym android_icons = "(string \<times> icon) list"

definition parseIcon :: "icon \<Rightarrow> int option \<Rightarrow> android_icons \<Rightarrow> android_icons" where
  "parseIcon icon icon_size icons =
     (let d = icon_density icon icon_size in
      if \<not> truthy d then icons
      else (case map_of icons (the d) of
              Some previous \<Rightarrow>
                if truthy (platform previous) then icons
                else AList.update (the d) icon icons
            | None \<Rightarrow> AList.update (the d) icon icons))"

text \<open>The objects \<open>found\<close> and \<open>favor\<close> built for the duplicate-default diagnostic.\<close>

definition icon_summary :: "icon \<Rightarrow> (string \<times> string) list" where
  "icon_summary icon =
     (let o1 = (if truthy (background icon) \<and> truthy (foreground icon) \<and> truthy (monochrome icon)
                then AList.update ''monochrome'' (the (monochrome icon))
                       (AList.update ''foreground'' (the (foreground icon))
                         (AList.update ''background'' (the (background icon)) []))
                else []);
          o2 = (if truthy (background icon) \<and> truthy (foreground icon)
                then AList.update ''foreground'' (the (foreground icon))
                       (AList.update ''background'' (the (background icon)) o1)
                else o1)
      in if truthy (src icon) then AList.update ''src'' (the (src icon)) o2 else o2)"

definition extra_default_message :: "icon \<Rightarrow> icon \<Rightarrow> string" where
  "extra_default_message icon dflt =
     ''Found extra default icon: '' @ json_stringify (icon_summary icon)
       @ '' and ignoring in favor of '' @ json_stringify (icon_summary dflt) @ ''.''"

record prepared =
  android_icons :: android_icons
  default_icon :: "icon option"
  prepare_events :: "event list"

text \<open>The size of a declaration: \<open>icon.width\<close>, or \<open>icon.height\<close> when the width is falsy.\<close>

definition icon_size :: "icon \<Rightarrow> int option" where
  "icon_size icon = (if truthy_num (width icon) then width icon else height icon)"

text \<open>One iteration of the loop over \<open>icons\<close>.\<close>

definition prepare_step :: "icon \<Rightarrow> prepared \<Rightarrow> prepared" where
  "prepare_step icon st =
     (if \<not> truthy_num (icon_size icon) \<and> \<not> truthy (density icon) then
        (case default_icon st of
           Some dflt \<Rightarrow>
             st\<lparr>prepare_events := prepare_events st @ [(Verbose, extra_default_message icon dflt)]\<rparr>
         | None \<Rightarrow> st\<lparr>default_icon := Some icon\<rparr>)
      else st\<lparr>android_icons := parseIcon icon (icon_size icon) (android_icons st)\<rparr>)"

definition prepareIcons :: "icon list \<Rightarrow> prepared" where
  "prepareIcons icons =
     fold prepare_step icons \<lparr>android_icons = [], default_icon = None, prepare_events = []\<rparr>"

section \<open>node:path (POSIX)\<close>

text \<open>
  \<open>path.basename(p)\<close>: the last component of \<open>p\<close>, trailing slashes ignored.
\<close>

definition basename :: "string \<Rightarrow> string" where
  "basename p =
     rev (takeWhile (\<lambda>c. c \<noteq> CHR ''/'') (dropWhile (\<lambda>c. c = CHR ''/'') (rev p)))"

text \<open>
  \<open>path.extname(p)\<close>: from the last dot of the last component to its end; empty when the
  component has no dot, starts with its only dot, or is \<open>..\<close>.
\<close>

definition extname :: "string \<Rightarrow> string" where
  "extname p =
     (let comp = basename p;
          r = rev comp;
          after_dot = takeWhile (\<lambda>c. c \<noteq> CHR ''.'') r;
          upto_dot = dropWhile (\<lambda>c. c \<noteq> CHR ''.'') r
      in if upto_dot = [] then []
         else if tl upto_dot = [] then []
         else if comp = ''..'' then []
         else CHR ''.'' # rev after_dot)"

text \<open>
  \<open>normalizeString\<close>: the stack of components kept while scanning a path, with the flag
  \<open>allowAboveRoot\<close> as first argument.
\<close>

fun normalize_segments :: "bool \<Rightarrow> string list \<Rightarrow> string list \<Rightarrow> string list" where
  "normalize_segments allowAboveRoot [] acc = acc"
| "normalize_segments allowAboveRoot (s # ss) acc =
     normalize_segments allowAboveRoot ss
       (if s = [] \<or> s = ''.'' then acc
        else if s = ''..'' then
          (if acc \<noteq> [] \<and> last acc \<noteq> ''..'' then butlast acc
           else if allowAboveRoot then acc @ [''..''] else acc)
        else acc @ [s])"

text \<open>\<open>path.normalize(p)\<close>.\<close>

definition normalize :: "string \<Rightarrow> string" where
  "normalize p =
     (if p = [] then ''.''
      else
        (let isAbsolute = (hd p = CHR ''/'');
             trailingSeparator = (last p = CHR ''/'');
             res = join ''/'' (normalize_segments (\<not> isAbsolute) (split CHR ''/'' p) [])
         in if res = [] then (if isAbsolute then ''/'' else if trailingSeparator then ''./'' else ''.'')
            else (if isAbsolute then ''/'' else []) @ res @ (if trailingSeparator then ''/'' else [])))"

text \<open>\<open>path.join(...segs)\<close>.\<close>

definition path_join :: "string list \<Rightarrow> string" where
  "path_join segs =
     (let parts = filter (\<lambda>s. s \<noteq> []) segs
      in if parts = [] then ''.'' else normalize (join ''/'' parts))"

text \<open>\<open>s.toLowerCase()\<close> on ASCII.\<close>

definition lower_char :: "char \<Rightarrow> char" where
  "lower_char c =
     (let n = (of_char c :: nat) in if 65 \<le> n \<and> n \<le> 90 then char_of (n + 32) else c)"

definition toLowerCase :: "string \<Rightarrow> string" where
  "toLowerCase s = map lower_char s"

section \<open>Validation of the icon declarations (first loop of updateIcons)\<close>

text \<open>\<open>'size=' + (icon.height || icon.width)\<close>, or the density when there is one.\<close>

definition number_text :: "int option \<Rightarrow> string" where
  "number_text v = (case v of None \<Rightarrow> ''undefined'' | Some n \<Rightarrow> int_text n)"

definition icon_ident :: "icon \<Rightarrow> string" where
  "icon_ident icon =
     (if truthy (density icon) then the (density icon)
      else ''size='' @ number_text (if truthy_num (height icon) then height icon else width icon))"

definition missing_attributes :: "icon \<Rightarrow> bool" where
  "missing_attributes icon =
     ((truthy (background icon) \<and> \<not> truthy (foreground icon)) \<or>
      (\<not> truthy (background icon) \<and> truthy (foreground icon)) \<or>
      (\<not> truthy (background icon) \<and> \<not> truthy (foreground icon) \<and> \<not> truthy (src icon)))"

definition legacy_icon_needed :: "icon \<Rightarrow> bool" where
  "legacy_icon_needed icon =
     (truthy (foreground icon) \<and> \<not> truthy (src icon) \<and>
      (startsWith (the (foreground icon)) ''@color'' \<or>
       extname (basename (the (foreground icon))) = ''.xml''))"

record validation =
  errorMissingAttributes :: "string list"
  errorLegacyIconNeeded :: "string list"
  hasAdaptive :: bool
  checked_icons :: "icon list"

text \<open>
  One call of the \<open>forEach\<close> callback; \<open>checked_icons\<close> collects the elements of \<open>icons\<close>
  as the callback leaves them (\<open>icons[key].src = icon.foreground\<close>).
\<close>

definition validate_icon :: "icon \<Rightarrow> validation \<Rightarrow> validation" where
  "validate_icon icon v =
     (let v1 = (if missing_attributes icon
                then v\<lparr>errorMissingAttributes := errorMissingAttributes v @ [icon_ident icon]\<rparr>
                else v)
      in if truthy (foreground icon) then
           (let v2 = v1\<lparr>hasAdaptive := True\<rparr>
            in if \<not> truthy (src icon) \<and>
                  (startsWith (the (foreground icon)) ''@color'' \<or>
                   extname (basename (the (foreground icon))) = ''.xml'')
               then v2\<lparr>errorLegacyIconNeeded := errorLegacyIconNeeded v2 @ [icon_ident icon],
                       checked_icons := checked_icons v2 @ [icon]\<rparr>
               else if \<not> truthy (src icon)
               then v2\<lparr>checked_icons := checked_icons v2 @ [icon\<lparr>src := foreground icon\<rparr>]\<rparr>
               else v2\<lparr>checked_icons := checked_icons v2 @ [icon]\<rparr>)
         else v1\<lparr>checked_icons := checked_icons v1 @ [icon]\<rparr>)"

definition validate_icons :: "icon list \<Rightarrow> validation" where
  "validate_icons icons =
     fold validate_icon icons
       \<lparr>errorMissingAttributes = [], errorLegacyIconNeeded = [], hasAdaptive = False,
        checked_icons = []\<rparr>"

definition missing_attributes_message :: "string list \<Rightarrow> string" where
  "missing_attributes_message ids =
     ''One of the following attributes are set but missing the other for the density type: ''
       @ join '', '' ids @ ''. Please ensure that all require attributes are defined.''"

definition legacy_icon_needed_message :: "string list \<Rightarrow> string" where
  "legacy_icon_needed_message ids =
     ''For the following icons with the density of: '' @ join '', '' ids
       @ '', adaptive foreground with a defined color or vector can not be used as a standard fallback icon for older Android devices. To support older Android environments, please provide a value for the src attribute.''"

text \<open>The array \<open>errorMessage\<close>.\<close>

definition errorMessage :: "validation \<Rightarrow> string list" where
  "errorMessage v =
     (if errorMissingAttributes v \<noteq> [] then [missing_attributes_message (errorMissingAttributes v)]
      else [])
     @ (if errorLegacyIconNeeded v \<noteq> [] then [legacy_icon_needed_message (errorLegacyIconNeeded v)]
        else [])"

section \<open>The resource map\<close>

text \<open>
  \<open>resourceMap\<close>: target path to source path, \<open>Some None\<close> for a target mapped to \<open>null\<close>
  (to be deleted by \<open>FileUpdater.updatePaths\<close>).
\<close>

type_synonym resource_map = "(string \<times> string option) list"

text \<open>
  \<open>mapImageResources\<close>: \<open>folders\<close> is what \<open>glob.sync(type + '-*', ...)\<close> finds under
  \<open>rootDir/subDir\<close>.
\<close>

definition mapImageResources :: "string list \<Rightarrow> string \<Rightarrow> string \<Rightarrow> resource_map" where
  "mapImageResources folders subDir resourceName =
     fold (\<lambda>drawableFolder pathMap.
             AList.update (path_join [subDir, drawableFolder, resourceName]) None pathMap)
       folders []"

text \<open>\<open>Object.assign(target, ...sources)\<close>.\<close>

definition object_assign :: "resource_map \<Rightarrow> resource_map list \<Rightarrow> resource_map" where
  "object_assign target sources =
     fold (\<lambda>source m. fold (\<lambda>(k, v) m'. AList.update k v m') source m) sources target"

definition initial_resource_map :: "string list \<Rightarrow> string \<Rightarrow> resource_map" where
  "initial_resource_map folders platformResourcesDir =
     object_assign []
       (map (mapImageResources folders platformResourcesDir)
          [''ic_launcher.png'', ''ic_launcher_foreground.png'', ''ic_launcher_background.png'',
           ''ic_launcher_monochrome.png'', ''ic_launcher_foreground.xml'',
           ''ic_launcher_background.xml'', ''ic_launcher_monochrome.xml'', ''ic_launcher.xml''])"

text \<open>\<open>name.replace(/\.png$/, '.9.png')\<close>.\<close>

definition png_to_nine_patch :: "string \<Rightarrow> string" where
  "png_to_nine_patch name =
     (if endsWith name ''.png'' then take (length name - 4) name @ ''.9.png'' else name)"

definition getImageResourcePath :: "string \<Rightarrow> string \<Rightarrow> string \<Rightarrow> string \<Rightarrow> string \<Rightarrow> string" where
  "getImageResourcePath resourcesDir type d name sourceName =
     (let ext = (if endsWith sourceName ''.9.png'' then ''.9.png''
                 else toLowerCase (extname sourceName));
          subDir = (if d \<noteq> [] then type @ ''-'' @ d else type)
      in path_join [resourcesDir, subDir, name @ ext])"

definition getAdaptiveImageResourcePath ::
  "string \<Rightarrow> string \<Rightarrow> string \<Rightarrow> string \<Rightarrow> string \<Rightarrow> string" where
  "getAdaptiveImageResourcePath resourcesDir type d name sourceName =
     (let name' = (if endsWith sourceName ''.9.png'' then png_to_nine_patch name else name)
      in path_join [resourcesDir, (if d \<noteq> [] then type @ ''-'' @ d @ ''-v26'' else type), name'])"

section \<open>Enumerating android_icons\<close>

definition is_digit :: "char \<Rightarrow> bool" where
  "is_digit c = (48 \<le> (of_char c :: nat) \<and> (of_char c :: nat) \<le> 57)"

definition nat_of_digits :: "string \<Rightarrow> nat" where
  "nat_of_digits s = fold (\<lambda>c n. 10 * n + ((of_char c :: nat) - 48)) s 0"

text \<open>A property key that is an array index: a canonical decimal below \<open>2^32 - 1\<close>.\<close>

definition is_array_index :: "string \<Rightarrow> bool" where
  "is_array_index s =
     (s \<noteq> [] \<and> list_all is_digit s \<and> (s = ''0'' \<or> hd s \<noteq> CHR ''0'') \<and>
      nat_of_digits s < 4294967295)"

text \<open>
  \<open>for (const density in android_icons)\<close> visits the array-index keys in ascending numeric
  order and then the other keys in the order of their creation. Assigning to the key
  \<open>__proto__\<close> replaces the prototype of \<open>android_icons\<close> by an icon object instead of
  creating a key, and the loop would then also visit the attributes of that icon, whose
  set is fixed outside this repository: there the model stops (\<open>None\<close>).
\<close>

definition for_in :: "android_icons \<Rightarrow> (string \<times> icon) list option" where
  "for_in obj =
     (if ''__proto__'' \<in> fst ` set obj then None
      else Some (sort_key (\<lambda>(k, v). nat_of_digits k) (filter (\<lambda>(k, v). is_array_index k) obj)
                 @ filter (\<lambda>(k, v). \<not> is_array_index k) obj))"

section \<open>updateIconResourceForAdaptive\<close>

text \<open>
  The function-level variables \<open>background\<close>, \<open>foreground\<close>, \<open>monochrome\<close> and
  \<open>targetPath...\<close>, the resource map, the files written by \<open>fs.writeFileSync\<close> (the
  path as given to \<open>path.resolve\<close> and the content, oldest first) and the events emitted.
  File system failures are not modelled.
\<close>

record adaptive_state =
  var_background :: "string option"
  var_foreground :: "string option"
  var_monochrome :: "string option"
  targetPathBackground :: "string option"
  targetPathForeground :: "string option"
  targetPathMonochrome :: "string option"
  resourceMap :: resource_map
  written :: "(string \<times> string) list"
  events :: "event list"

definition monochrome_warning :: string where
  "monochrome_warning =
     join [CHR 0x0A]
       [''Monochrome icon found but without adaptive properties.'',
        ''Monochrome icon requires the adaptive background and foreground assets.'',
        ''See https://cordova.apache.org/docs/en/latest/config_ref/images.html fore more information.'']"

text \<open>The generated descriptor \<open>icLauncherTemplate\<close>.\<close>

definition icLauncherTemplate :: "string \<Rightarrow> string \<Rightarrow> string option \<Rightarrow> string" where
  \<open>icLauncherTemplate backgroundVal foregroundVal monochromeVal =
     join [CHR 0x0A]
       ([''<?xml version="1.0" encoding="utf-8"?>'',
         ''<adaptive-icon xmlns:android="http://schemas.android.com/apk/res/android">'',
         ''    <background android:drawable="'' @ backgroundVal @ ''" />'',
         ''    <foreground android:drawable="'' @ foregroundVal @ ''" />'']
        @ (case monochromeVal of
             None \<Rightarrow> []
           | Some m \<Rightarrow> [''    <monochrome android:drawable="'' @ m @ ''" />''])
        @ [''</adaptive-icon>''])\<close>

definition launcherXmlPath :: "string \<Rightarrow> string \<Rightarrow> string" where
  "launcherXmlPath platformResourcesDir d =
     path_join [platformResourcesDir, ''mipmap-'' @ d @ ''-v26'', ''ic_launcher.xml'']"

text \<open>The background part of one iteration: the new state and \<open>backgroundVal\<close>.\<close>

definition loop_background ::
  "string \<Rightarrow> string \<Rightarrow> string \<Rightarrow> adaptive_state \<Rightarrow> adaptive_state \<times> string" where
  "loop_background platformResourcesDir d b st =
     (if startsWith b ''@color'' then (st, b)
      else if extname (basename b) = ''.xml'' then
        (let t = getAdaptiveImageResourcePath platformResourcesDir ''mipmap'' d
                   ''ic_launcher_background.xml'' (basename b)
         in (st\<lparr>targetPathBackground := Some t,
                resourceMap := AList.update t (Some b) (resourceMap st)\<rparr>,
             ''@mipmap/ic_launcher_background''))
      else if extname (basename b) = ''.png'' then
        (let t = getAdaptiveImageResourcePath platformResourcesDir ''mipmap'' d
                   ''ic_launcher_background.png'' (basename b)
         in (st\<lparr>targetPathBackground := Some t,
                resourceMap := AList.update t (Some b) (resourceMap st)\<rparr>,
             ''@mipmap/ic_launcher_background''))
      else (st, ''@mipmap/ic_launcher_background''))"

definition loop_foreground ::
  "string \<Rightarrow> string \<Rightarrow> string \<Rightarrow> adaptive_state \<Rightarrow> adaptive_state \<times> string" where
  "loop_foreground platformResourcesDir d f st =
     (if startsWith f ''@color'' then (st, f)
      else if extname (basename f) = ''.xml'' then
        (let t = getAdaptiveImageResourcePath platformResourcesDir ''mipmap'' d
                   ''ic_launcher_foreground.xml'' (basename f)
         in (st\<lparr>targetPathForeground := Some t,
                resourceMap := AList.update t (Some f) (resourceMap st)\<rparr>,
             ''@mipmap/ic_launcher_foreground''))
      else if extname (basename f) = ''.png'' then
        (let t = getAdaptiveImageResourcePath platformResourcesDir ''mipmap'' d
                   ''ic_launcher_foreground.png'' (basename f)
         in (st\<lparr>targetPathForeground := Some t,
                resourceMap := AList.update t (Some f) (resourceMap st)\<rparr>,
             ''@mipmap/ic_launcher_foreground''))
      else (st, ''@mipmap/ic_launcher_foreground''))"

definition loop_monochrome ::
  "string \<Rightarrow> string \<Rightarrow> string \<Rightarrow> adaptive_state \<Rightarrow> adaptive_state" where
  "loop_monochrome platformResourcesDir d m st =
     (if extname (basename m) = ''.xml'' then
        (let t = getAdaptiveImageResourcePath platformResourcesDir ''mipmap'' d
                   ''ic_launcher_monochrome.xml'' (basename m)
         in st\<lparr>targetPathMonochrome := Some t,
               resourceMap := AList.update t (Some m) (resourceMap st)\<rparr>)
      else if extname (basename m) = ''.png'' then
        (let t = getAdaptiveImageResourcePath platformResourcesDir ''mipmap'' d
                   ''ic_launcher_monochrome.png'' (basename m)
         in st\<lparr>targetPathMonochrome := Some t,
               resourceMap := AList.update t (Some m) (resourceMap st)\<rparr>)
      else st)"

text \<open>One iteration of \<open>for (const density in android_icons)\<close>.\<close>

definition adaptive_iteration :: "string \<Rightarrow> string \<times> icon \<Rightarrow> adaptive_state \<Rightarrow> adaptive_state" where
  "adaptive_iteration platformResourcesDir entry st =
     (let d = fst entry;
          icon = snd entry;
          st1 = st\<lparr>var_background := background icon, var_foreground := foreground icon,
                   var_monochrome := monochrome icon\<rparr>;
          hasAdaptiveIcons = (truthy (background icon) \<and> truthy (foreground icon));
          hasMonochromeIcon = (truthy (monochrome icon) \<and> hasAdaptiveIcons);
          st2 = (if truthy (monochrome icon) \<and> \<not> hasAdaptiveIcons
                 then st1\<lparr>var_monochrome := None, events := events st1 @ [(Warn, monochrome_warning)]\<rparr>
                 else st1)
      in if \<not> hasAdaptiveIcons then st2
         else
           (let (st3, backgroundVal) = loop_background platformResourcesDir d (the (background icon)) st2;
                (st4, foregroundVal) = loop_foreground platformResourcesDir d (the (foreground icon)) st3;
                st5 = (if hasMonochromeIcon
                       then loop_monochrome platformResourcesDir d (the (monochrome icon)) st4
                       else st4);
                template = icLauncherTemplate backgroundVal foregroundVal
                             (if hasMonochromeIcon then Some ''@mipmap/ic_launcher_monochrome'' else None);
                p = launcherXmlPath platformResourcesDir d
            in st5\<lparr>resourceMap := AList.delete p (resourceMap st5),
                   written := written st5 @ [(p, template)]\<rparr>))"

definition undefined_read :: "string \<Rightarrow> error" where
  "undefined_read prop = TypeError (''Cannot read properties of undefined (reading '' @ prop @ '')'')"

definition basename_undefined :: error where
  \<open>basename_undefined = TypeError ''The "path" argument must be of type string. Received undefined''\<close>

text \<open>
  The block after the loop (\<open>default_icon && !android_icons.mdpi\<close>), in three parts. Each
  reads the variable the loop left behind and throws where the program dereferences
  \<open>undefined\<close>.
\<close>

definition default_background :: "string \<Rightarrow> icon \<Rightarrow> adaptive_state \<Rightarrow> error + adaptive_state" where
  "default_background platformResourcesDir dflt st =
     (case var_background st of
        None \<Rightarrow> Inl (undefined_read ''startsWith'')
      | Some b \<Rightarrow>
          if startsWith b ''@color'' then Inr (st\<lparr>targetPathBackground := background dflt\<rparr>)
          else if extname (basename b) = ''.xml'' then
            (case background dflt of
               None \<Rightarrow> Inl basename_undefined
             | Some db \<Rightarrow>
                 Inr (st\<lparr>resourceMap :=
                        AList.update
                          (getAdaptiveImageResourcePath platformResourcesDir ''mipmap'' ''mdpi''
                             ''ic_launcher_background.xml'' (basename db))
                          (Some db) (resourceMap st)\<rparr>))
          else if extname (basename b) = ''.png'' then
            (case background dflt of
               None \<Rightarrow> Inl basename_undefined
             | Some db \<Rightarrow>
                 Inr (st\<lparr>resourceMap :=
                        AList.update
                          (getAdaptiveImageResourcePath platformResourcesDir ''mipmap'' ''mdpi''
                             ''ic_launcher_background.png'' (basename db))
                          (Some db) (resourceMap st)\<rparr>))
          else Inr st)"

definition default_foreground :: "string \<Rightarrow> icon \<Rightarrow> adaptive_state \<Rightarrow> error + adaptive_state" where
  "default_foreground platformResourcesDir dflt st =
     (case var_foreground st of
        None \<Rightarrow> Inl (undefined_read ''startsWith'')
      | Some f \<Rightarrow>
          if startsWith f ''@color'' then Inr (st\<lparr>targetPathForeground := foreground dflt\<rparr>)
          else if extname (basename f) = ''.xml'' then
            (case foreground dflt of
               None \<Rightarrow> Inl basename_undefined
             | Some df \<Rightarrow>
                 Inr (st\<lparr>resourceMap :=
                        AList.update
                          (getAdaptiveImageResourcePath platformResourcesDir ''mipmap'' ''mdpi''
                             ''ic_launcher_foreground.xml'' (basename df))
                          (Some df) (resourceMap st)\<rparr>))
          else if extname (basename f) = ''.png'' then
            (case foreground dflt of
               None \<Rightarrow> Inl basename_undefined
             | Some df \<Rightarrow>
                 Inr (st\<lparr>resourceMap :=
                        AList.update
                          (getAdaptiveImageResourcePath platformResourcesDir ''mipmap'' ''mdpi''
                             ''ic_launcher_foreground.png'' (basename df))
                          (Some df) (resourceMap st)\<rparr>))
          else Inr st)"

definition default_monochrome :: "string \<Rightarrow> icon \<Rightarrow> adaptive_state \<Rightarrow> error + adaptive_state" where
  "default_monochrome platformResourcesDir dflt st =
     (if truthy (var_monochrome st) then
        (let m = the (var_monochrome st)
         in if extname (basename m) = ''.xml'' then
              (case monochrome dflt of
                 None \<Rightarrow> Inl basename_undefined
               | Some dm \<Rightarrow>
                   Inr (st\<lparr>resourceMap :=
                          AList.update
                            (getAdaptiveImageResourcePath platformResourcesDir ''mipmap'' ''mdpi''
                               ''ic_launcher_monochrome.xml'' (basename dm))
                            (Some dm) (resourceMap st)\<rparr>))
            else if extname (basename m) = ''.png'' then
              (case monochrome dflt of
                 None \<Rightarrow> Inl basename_undefined
               | Some dm \<Rightarrow>
                   Inr (st\<lparr>resourceMap :=
                          AList.update
                            (getAdaptiveImageResourcePath platformResourcesDir ''mipmap'' ''mdpi''
                               ''ic_launcher_monochrome.png'' (basename dm))
                            (Some dm) (resourceMap st)\<rparr>))
            else Inr st)
      else Inr st)"

text \<open>The whole block: the error thrown, if any, and the state reached.\<close>

definition adaptive_default :: "string \<Rightarrow> icon \<Rightarrow> adaptive_state \<Rightarrow> error option \<times> adaptive_state" where
  "adaptive_default platformResourcesDir dflt st =
     (case default_background platformResourcesDir dflt st of
        Inl e \<Rightarrow> (Some e, st)
      | Inr st1 \<Rightarrow>
          (case default_foreground platformResourcesDir dflt st1 of
             Inl e \<Rightarrow> (Some e, st1)
           | Inr st2 \<Rightarrow>
               (case default_monochrome platformResourcesDir dflt st2 of
                  Inl e \<Rightarrow> (Some e, st2)
                | Inr st3 \<Rightarrow> (None, st3))))"

definition prototype_replaced :: error where
  "prototype_replaced = OutsideModel ''android_icons.__proto__ was assigned''"

definition adaptive_start :: "resource_map \<Rightarrow> event list \<Rightarrow> adaptive_state" where
  "adaptive_start m evs =
     \<lparr>var_background = None, var_foreground = None, var_monochrome = None,
      targetPathBackground = None, targetPathForeground = None, targetPathMonochrome = None,
      resourceMap = m, written = [], events = evs\<rparr>"

definition updateIconResourceForAdaptive ::
  "prepared \<Rightarrow> resource_map \<Rightarrow> string \<Rightarrow> event list \<Rightarrow> error option \<times> adaptive_state" where
  "updateIconResourceForAdaptive preparedIcons m platformResourcesDir evs =
     (case for_in (android_icons preparedIcons) of
        None \<Rightarrow> (Some prototype_replaced, adaptive_start m evs)
      | Some entries \<Rightarrow>
          (let st = fold (adaptive_iteration platformResourcesDir) entries (adaptive_start m evs)
           in case default_icon preparedIcons of
                Some dflt \<Rightarrow>
                  if map_of (android_icons preparedIcons) ''mdpi'' = None
                  then adaptive_default platformResourcesDir dflt st
                  else (None, st)
              | None \<Rightarrow> (None, st)))"

section \<open>updateIconResourceForLegacy\<close>

text \<open>
  The loop over the densities: \<open>path.basename\<close> throws on an \<open>undefined\<close> source. The
  result is the error thrown, if any, and the resource map reached.
\<close>

fun legacy_loop ::
  "string \<Rightarrow> (string \<times> icon) list \<Rightarrow> resource_map \<Rightarrow> error option \<times> resource_map" where
  "legacy_loop platformResourcesDir [] m = (None, m)"
| "legacy_loop platformResourcesDir ((d, icon) # rest) m =
     (case src icon of
        None \<Rightarrow> (Some basename_undefined, m)
      | Some s \<Rightarrow>
          legacy_loop platformResourcesDir rest
            (AList.update
               (getImageResourcePath platformResourcesDir ''mipmap'' d ''ic_launcher'' (basename s))
               (Some s) m))"

definition updateIconResourceForLegacy ::
  "prepared \<Rightarrow> resource_map \<Rightarrow> string \<Rightarrow> error option \<times> resource_map" where
  "updateIconResourceForLegacy preparedIcons m platformResourcesDir =
     (case for_in (android_icons preparedIcons) of
        None \<Rightarrow> (Some prototype_replaced, m)
      | Some entries \<Rightarrow>
          (case legacy_loop platformResourcesDir entries m of
             (Some e, m1) \<Rightarrow> (Some e, m1)
           | (None, m1) \<Rightarrow>
               (case default_icon preparedIcons of
                  Some dflt \<Rightarrow>
                    if map_of (android_icons preparedIcons) ''mdpi'' = None then
                      (case src dflt of
                         None \<Rightarrow> (Some basename_undefined, m1)
                       | Some s \<Rightarrow>
                           (None,
                            AList.update
                              (getImageResourcePath platformResourcesDir ''mipmap'' ''mdpi''
                                 ''ic_launcher'' (basename s))
                              (Some s) m1))
                    else (None, m1)
                | None \<Rightarrow> (None, m1))))"

section \<open>updateIcons\<close>

text \<open>
  What one call of \<open>updateIcons\<close> does: the error it throws (\<open>None\<close> when it returns), the
  events emitted, the files written directly, and the resource map handed to
  \<open>FileUpdater.updatePaths\<close> (\<open>None\<close> when that call is not reached).
\<close>

record icons_run =
  outcome :: "error option"
  run_events :: "event list"
  run_written :: "(string \<times> string) list"
  synced :: "resource_map option"

text \<open>
  \<open>icons\<close> is \<open>projectConfig.getIcons('android')\<close>, \<open>folders\<close> the \<open>mipmap-*\<close>
  directories under the resource directory.
\<close>

definition updateIcons :: "icon list \<Rightarrow> string \<Rightarrow> string list \<Rightarrow> icons_run" where
  "updateIcons icons platformResourcesDir folders =
     (if icons = [] then
        \<lparr>outcome = None,
         run_events = [(Verbose, ''This app does not have launcher icons defined'')],
         run_written = [], synced = None\<rparr>
      else
        (let v = validate_icons icons in
         if errorMessage v \<noteq> [] then
           \<lparr>outcome = Some (CordovaError (join '' '' (errorMessage v))),
            run_events = [], run_written = [], synced = None\<rparr>
         else
           (let resourceMap0 = initial_resource_map folders platformResourcesDir;
                preparedIcons = prepareIcons (checked_icons v);
                (e1, st) =
                  (if hasAdaptive v
                   then updateIconResourceForAdaptive preparedIcons resourceMap0 platformResourcesDir
                          (prepare_events preparedIcons)
                   else (None, adaptive_start resourceMap0 (prepare_events preparedIcons)))
            in case e1 of
                 Some e \<Rightarrow>
                   \<lparr>outcome = Some e, run_events = events st, run_written = written st,
                    synced = None\<rparr>
               | None \<Rightarrow>
                   (case updateIconResourceForLegacy preparedIcons (resourceMap st) platformResourcesDir of
                      (Some e, m) \<Rightarrow>
                        \<lparr>outcome = Some e, run_events = events st, run_written = written st,
                         synced = None\<rparr>
                    | (None, m) \<Rightarrow>
                        \<lparr>outcome = None,
                         run_events = events st @ [(Verbose, ''Updating icons at '' @ platformResourcesDir)],
                         run_written = written st, synced = Some m\<rparr>))))"

section \<open>default_versionCode\<close>

text \<open>
  A JavaScript number as far as \<open>default_versionCode\<close> can meet one. Its operands come
  from \<open>version.split('-')[0].split('.')\<close>, so they contain neither \<open>-\<close> nor \<open>.\<close> and
  every finite value is a natural number. Doubles are exact on the integers up to
  \<open>2^53\<close>; \<open>Inexact\<close> stands for any finite or infinite double beyond that, which the
  model does not compute.
\<close>

datatype jsnum = NaN | Infinity | Num nat | Inexact

definition num :: "nat \<Rightarrow> jsnum" where
  "num n = (if n \<le> 2 ^ 53 then Num n else Inexact)"

definition is_space :: "char \<Rightarrow> bool" where
  "is_space c = ((of_char c :: nat) = 32 \<or> (9 \<le> (of_char c :: nat) \<and> (of_char c :: nat) \<le> 13))"

definition trim :: "string \<Rightarrow> string" where
  "trim s = rev (dropWhile is_space (rev (dropWhile is_space s)))"

definition digit_value :: "char \<Rightarrow> nat option" where
  "digit_value c =
     (let n = (of_char c :: nat)
      in if 48 \<le> n \<and> n \<le> 57 then Some (n - 48)
         else if 97 \<le> n \<and> n \<le> 102 then Some (n - 87)
         else if 65 \<le> n \<and> n \<le> 70 then Some (n - 55)
         else None)"

text \<open>A literal \<open>0x..\<close>, \<open>0o..\<close> or \<open>0b..\<close> without its prefix, in the given radix.\<close>

definition parse_radix :: "nat \<Rightarrow> string \<Rightarrow> jsnum" where
  "parse_radix radix s =
     (if s \<noteq> [] \<and> list_all (\<lambda>c. case digit_value c of None \<Rightarrow> False | Some d \<Rightarrow> d < radix) s
      then num (fold (\<lambda>c n. radix * n + the (digit_value c)) s 0)
      else NaN)"

text \<open>An unsigned decimal literal without a dot: \<open>Infinity\<close>, or digits and an optional
  exponent.\<close>

definition parse_decimal :: "string \<Rightarrow> jsnum" where
  "parse_decimal s =
     (if s = ''Infinity'' then Infinity
      else
        (let mantissa = takeWhile is_digit s; rest = dropWhile is_digit s
         in if mantissa = [] then NaN
            else if rest = [] then num (nat_of_digits mantissa)
            else if hd rest = CHR ''e'' \<or> hd rest = CHR ''E'' then
              (let ex = (if tl rest \<noteq> [] \<and> hd (tl rest) = CHR ''+'' then tl (tl rest) else tl rest)
               in if ex \<noteq> [] \<and> list_all is_digit ex
                  then num (nat_of_digits mantissa * 10 ^ nat_of_digits ex)
                  else NaN)
            else NaN))"

text \<open>The unary plus \<open>+v\<close> on a string or \<open>undefined\<close>.\<close>

definition to_number :: "string option \<Rightarrow> jsnum" where
  "to_number v =
     (case v of
        None \<Rightarrow> NaN
      | Some s \<Rightarrow>
          (let t = trim s
           in if t = [] then Num 0
              else if startsWith t ''0x'' \<or> startsWith t ''0X'' then parse_radix 16 (drop 2 t)
              else if startsWith t ''0o'' \<or> startsWith t ''0O'' then parse_radix 8 (drop 2 t)
              else if startsWith t ''0b'' \<or> startsWith t ''0B'' then parse_radix 2 (drop 2 t)
              else if hd t = CHR ''+'' then parse_decimal (tl t)
              else parse_decimal t))"

definition truthy_jsnum :: "jsnum \<Rightarrow> bool" where
  "truthy_jsnum x = (x \<noteq> NaN \<and> x \<noteq> Num 0)"

text \<open>Product and sum, for operands that are not \<open>NaN\<close> and a non-zero factor.\<close>

definition js_times :: "jsnum \<Rightarrow> nat \<Rightarrow> jsnum" where
  "js_times x k =
     (case x of NaN \<Rightarrow> NaN | Infinity \<Rightarrow> Infinity | Inexact \<Rightarrow> Inexact | Num n \<Rightarrow> num (n * k))"

definition js_plus :: "jsnum \<Rightarrow> jsnum \<Rightarrow> jsnum" where
  "js_plus x y =
     (case (x, y) of
        (NaN, _) \<Rightarrow> NaN
      | (_, NaN) \<Rightarrow> NaN
      | (Infinity, _) \<Rightarrow> Infinity
      | (_, Infinity) \<Rightarrow> Infinity
      | (Num a, Num b) \<Rightarrow> num (a + b)
      | _ \<Rightarrow> Inexact)"

text \<open>\<open>nums[i]\<close>: \<open>undefined\<close> beyond the end of the array.\<close>

definition element_at :: "string list \<Rightarrow> nat \<Rightarrow> string option" where
  "element_at xs i = (if i < length xs then Some (xs ! i) else None)"

text \<open>The value returned; the verbose event that reports it is left out.\<close>

definition default_versionCode :: "string \<Rightarrow> jsnum" where
  "default_versionCode version =
     (let nums = split CHR ''.'' (hd (split CHR ''-'' version));
          v0 = Num 0;
          v1 = (if truthy_jsnum (to_number (element_at nums 0))
                then js_plus v0 (js_times (to_number (element_at nums 0)) 10000) else v0);
          v2 = (if truthy_jsnum (to_number (element_at nums 1))
                then js_plus v1 (js_times (to_number (element_at nums 1)) 100) else v1);
          v3 = (if truthy_jsnum (to_number (element_at nums 2))
                then js_plus v2 (to_number (element_at nums 2)) else v2)
      in v3)"

section \<open>The XML documents (elementtree)\<close>

datatype element =
  Element (tag: string) (attrib: "(string \<times> string) list") (node_text: "string option")
    (children: "element list")

definition set_text :: "string \<Rightarrow> element \<Rightarrow> element" where
  "set_text t e = Element (tag e) (attrib e) (Some t) (children e)"

definition set_children :: "element list \<Rightarrow> element \<Rightarrow> element" where
  "set_children cs e = Element (tag e) (attrib e) (node_text e) cs"

definition set_attrib :: "(string \<times> string) list \<Rightarrow> element \<Rightarrow> element" where
  "set_attrib a e = Element (tag e) a (node_text e) (children e)"

text \<open>The path \<open>tg[@name="n"]\<close>: a child with that tag and that \<open>name\<close> attribute.\<close>

definition named :: "string \<Rightarrow> string \<Rightarrow> element \<Rightarrow> bool" where
  "named tg n e = (tag e = tg \<and> map_of (attrib e) ''name'' = Some n)"

text \<open>\<open>find\<close> returns the first matching child; the model keeps its position.\<close>

fun find_first :: "('a \<Rightarrow> bool) \<Rightarrow> 'a list \<Rightarrow> nat option" where
  "find_first P [] = None"
| "find_first P (x # xs) = (if P x then Some 0 else map_option Suc (find_first P xs))"

text \<open>\<open>parent.remove(child)\<close> for the child at position \<open>i\<close>.\<close>

definition remove_at :: "nat \<Rightarrow> 'a list \<Rightarrow> 'a list" where
  "remove_at i xs = take i xs @ drop (Suc i) xs"

text \<open>\<open>makeelement(tg, attrs)\<close>.\<close>

definition makeelement :: "string \<Rightarrow> (string \<times> string) list \<Rightarrow> element" where
  "makeelement tg attrs = Element tg attrs None []"

section \<open>updateProjectSplashScreenIconBackgroundColor\<close>

text \<open>\<open>s.replace(/'/g, '\\\'')\<close>.\<close>

definition escape_quotes :: "string \<Rightarrow> string" where
  "escape_quotes s = concat (map (\<lambda>c. if c = CHR 0x27 then [CHR 0x5C, CHR 0x27] else [c]) s)"

definition icon_background_name :: string where
  "icon_background_name = ''cdv_splashscreen_icon_background''"

text \<open>
  From the parsed \<open>cdv_colors.xml\<close> (its root element) to the document written back.
\<close>

definition updateProjectSplashScreenIconBackgroundColor :: "string option \<Rightarrow> element \<Rightarrow> element" where
  "updateProjectSplashScreenIconBackgroundColor splashIconBackgroundColor colors =
     (let currentColor = find_first (named ''color'' icon_background_name) (children colors)
      in if \<not> truthy splashIconBackgroundColor \<and> currentColor \<noteq> None then
           set_children (remove_at (the currentColor) (children colors)) colors
         else if truthy splashIconBackgroundColor then
           (let cs = (case currentColor of
                        None \<Rightarrow> children colors
                               @ [makeelement ''color'' [(''name'', icon_background_name)]]
                      | Some i \<Rightarrow> children colors);
                i = (case currentColor of None \<Rightarrow> length (children colors) | Some i \<Rightarrow> i)
            in set_children
                 (cs[i := set_text (escape_quotes (the splashIconBackgroundColor)) (cs ! i)])
                 colors)
         else colors)"

section \<open>updateProjectTheme\<close>

text \<open>
  While the function runs: the attributes of the root of \<open>cdv_themes.xml\<close>, the items of
  the style \<open>Theme.App.SplashScreen\<close>, the colors file, the events emitted and the calls
  of \<open>updateProjectSplashScreenImage\<close> (theme key, preference key, preference value),
  whose file copies are not modelled.
\<close>

record theme_state =
  root_attrib :: "(string \<times> string) list"
  style_items :: "element list"
  colors_file :: element
  theme_events :: "event list"
  image_calls :: "(string \<times> string \<times> string option) list"

text \<open>The paths \<open>locations.themes\<close> and \<open>locations.colors\<close>.\<close>

record locations =
  loc_themes :: string
  loc_colors :: string

text \<open>The edge-to-edge preference: \<open>hasE2E\<close> and the events emitted on the way.\<close>

definition resolve_e2e :: "string option \<Rightarrow> bool \<times> event list" where
  \<open>resolve_e2e preferenceE2E =
     (if \<not> truthy preferenceE2E then
        (False, [(Verbose, ''The preference name "AndroidEdgeToEdge" was not set. Defaulting to "false".'')])
      else
        (let hasInvalidPreferenceE2E =
               (the preferenceE2E \<noteq> ''true'' \<and> the preferenceE2E \<noteq> ''false'')
         in (if hasInvalidPreferenceE2E then False else the preferenceE2E = ''true'',
             if hasInvalidPreferenceE2E
             then [(Verbose, ''Preference name "AndroidEdgeToEdge" has an invalid value. Valid values are "true" or "false". Defaulting to "false"'')]
             else [])))\<close>

definition optOutE2EKey :: string where
  "optOutE2EKey = ''android:windowOptOutEdgeToEdgeEnforcement''"

definition null_text_write :: error where
  "null_text_write = TypeError ''Cannot set properties of null (setting text)''"

definition null_find :: error where
  "null_find = TypeError ''Cannot read properties of null (reading find)''"

text \<open>\<open>node.text = t\<close> for \<open>node = splashScreenTheme.find('item[@name="key"]')\<close>.\<close>

definition set_item_text :: "string \<Rightarrow> string \<Rightarrow> theme_state \<Rightarrow> error option \<times> theme_state" where
  "set_item_text key t st =
     (case find_first (named ''item'' key) (style_items st) of
        None \<Rightarrow> (Some null_text_write, st)
      | Some i \<Rightarrow>
          (None, st\<lparr>style_items := (style_items st)[i := set_text t (style_items st ! i)]\<rparr>))"

text \<open>Run \<open>f\<close> unless an error was thrown before.\<close>

definition and_then ::
  "error option \<times> 's \<Rightarrow> ('s \<Rightarrow> error option \<times> 's) \<Rightarrow> error option \<times> 's" where
  "and_then r f = (case r of (Some e, s) \<Rightarrow> (Some e, s) | (None, s) \<Rightarrow> f s)"

definition emit :: "severity \<Rightarrow> string \<Rightarrow> theme_state \<Rightarrow> theme_state" where
  "emit sev msg st = st\<lparr>theme_events := theme_events st @ [(sev, msg)]\<rparr>"

text \<open>The first part of the function, up to \<open>optOutE2EItem.text = optOutE2EValue\<close>.\<close>

definition theme_edge_to_edge ::
  "(string \<Rightarrow> string option) \<Rightarrow> theme_state \<Rightarrow> error option \<times> theme_state" where
  \<open>theme_edge_to_edge prefs st =
     (let (hasE2E, evs) = resolve_e2e (prefs ''AndroidEdgeToEdge'');
          st1 = st\<lparr>theme_events := theme_events st @ evs\<rparr>;
          optOutE2EValue = (if \<not> hasE2E then ''true'' else ''false'')
      in and_then (set_item_text optOutE2EKey optOutE2EValue st1)
           (\<lambda>st2. (None,
              emit Verbose (''Updating theme item "'' @ optOutE2EKey @ ''" with value "''
                            @ optOutE2EValue @ ''"'') st2)))\<close>

text \<open>The splash screen background colour and its chain of preferences.\<close>

definition theme_splash_background ::
  "(string \<Rightarrow> string option) \<Rightarrow> theme_state \<Rightarrow> error option \<times> theme_state" where
  "theme_splash_background prefs st =
     (let b1 = prefs ''AndroidWindowSplashScreenBackground'';
          b2 = (if \<not> truthy b1 then prefs ''SplashScreenBackgroundColor'' else b1);
          b3 = (if \<not> truthy b2 then prefs ''BackgroundColor'' else b2);
          splashBg = (if \<not> truthy b3 then ''@color/cdv_splashscreen_background'' else the b3);
          st1 = emit Verbose
                  (''The Android Splash Screen background color was set to: ''
                   @ (if splashBg = ''@color/cdv_splashscreen_background'' then ''Default'' else splashBg))
                  st
      in set_item_text ''windowSplashScreenBackground'' splashBg st1)"

text \<open>\<open>s.indexOf(c) + 1\<close>.\<close>

definition index_after :: "char \<Rightarrow> string \<Rightarrow> nat" where
  "index_after c s = (case find_first (\<lambda>x. x = c) s of None \<Rightarrow> 0 | Some i \<Rightarrow> Suc i)"

definition upper_char :: "char \<Rightarrow> char" where
  "upper_char c =
     (let n = (of_char c :: nat) in if 97 \<le> n \<and> n \<le> 122 then char_of (n - 32) else c)"

definition cdvConfigPrefKey :: "string \<Rightarrow> string" where
  "cdvConfigPrefKey themeKey =
     (let index = index_after CHR '':'' themeKey
      in ''Android'' @ map upper_char (take 1 (drop index themeKey)) @ drop (Suc index) themeKey)"

text \<open>The case \<open>'android:windowSplashScreenBrandingImage'\<close> of the switch.\<close>

definition theme_branding_image ::
  "string \<Rightarrow> string \<Rightarrow> string option \<Rightarrow> theme_state \<Rightarrow> theme_state" where
  \<open>theme_branding_image themeKey prefKey cdvConfigPrefValue st =
     (let themeTargetNode = find_first (named ''item'' themeKey) (style_items st);
          st1 = (if truthy cdvConfigPrefValue
                 then emit Warn (''"'' @ themeKey @ ''" is currently not supported by the splash screen compatibility library. https://issuetracker.google.com/issues/194301890'') st
                 else st);
          st2 = st1\<lparr>image_calls := image_calls st1 @ [(themeKey, prefKey, cdvConfigPrefValue)]\<rparr>
      in if \<not> truthy cdvConfigPrefValue \<and> themeTargetNode \<noteq> None then
           st2\<lparr>style_items := remove_at (the themeTargetNode) (style_items st2),
                root_attrib := AList.delete ''xmlns:tools'' (root_attrib st2)\<rparr>
         else if truthy cdvConfigPrefValue then
           (let st3 = (if themeTargetNode = None
                       then st2\<lparr>style_items := style_items st2
                                  @ [makeelement ''item'' [(''name'', themeKey), (''tools:targetApi'', ''31'')]],
                                root_attrib := AList.update ''xmlns:tools''
                                  ''http://schemas.android.com/tools'' (root_attrib st2)\<rparr>
                       else st2);
                i = (case themeTargetNode of None \<Rightarrow> length (style_items st2) | Some i \<Rightarrow> i)
            in st3\<lparr>style_items := (style_items st3)
                  [i := set_text ''@drawable/ic_cdv_splashscreen_branding'' (style_items st3 ! i)]\<rparr>)
         else st2)\<close>

text \<open>The case \<open>'windowSplashScreenIconBackgroundColor'\<close> of the switch.\<close>

definition theme_icon_background_color ::
  "locations \<Rightarrow> string \<Rightarrow> string option \<Rightarrow> theme_state \<Rightarrow> theme_state" where
  "theme_icon_background_color locs themeKey cdvConfigPrefValue st =
     (let themeTargetNode = find_first (named ''item'' themeKey) (style_items st);
          st1 = emit Verbose
                  (''Wrote out Android application SplashScreen Icon Color to '' @ loc_colors locs)
                  (st\<lparr>colors_file :=
                        updateProjectSplashScreenIconBackgroundColor cdvConfigPrefValue (colors_file st)\<rparr>)
      in if \<not> truthy cdvConfigPrefValue \<and> themeTargetNode \<noteq> None then
           st1\<lparr>style_items := remove_at (the themeTargetNode) (style_items st1)\<rparr>
         else if truthy cdvConfigPrefValue then
           (let st2 = (if themeTargetNode = None
                       then st1\<lparr>style_items := style_items st1
                                  @ [makeelement ''item'' [(''name'', themeKey)]]\<rparr>
                       else st1);
                i = (case themeTargetNode of None \<Rightarrow> length (style_items st1) | Some i \<Rightarrow> i)
            in st2\<lparr>style_items := (style_items st2)
                  [i := set_text ''@color/cdv_splashscreen_icon_background'' (style_items st2 ! i)]\<rparr>)
         else st1)"

text \<open>One call of the \<open>forEach\<close> callback.\<close>

definition theme_key_step ::
  "(string \<Rightarrow> string option) \<Rightarrow> locations \<Rightarrow> string \<Rightarrow> theme_state
     \<Rightarrow> error option \<times> theme_state" where
  \<open>theme_key_step prefs locs themeKey st =
     (let prefKey = cdvConfigPrefKey themeKey;
          cdvConfigPrefValue = prefs prefKey
      in if themeKey = ''windowSplashScreenAnimatedIcon'' then
           (None, st\<lparr>image_calls := image_calls st @ [(themeKey, prefKey, cdvConfigPrefValue)]\<rparr>)
         else if themeKey = ''android:windowSplashScreenBrandingImage'' then
           (None, theme_branding_image themeKey prefKey cdvConfigPrefValue st)
         else if themeKey = ''windowSplashScreenIconBackgroundColor'' then
           (None, theme_icon_background_color locs themeKey cdvConfigPrefValue st)
         else if themeKey = ''windowSplashScreenAnimationDuration'' then
           set_item_text themeKey (if truthy cdvConfigPrefValue then the cdvConfigPrefValue else ''200'') st
         else if themeKey = ''postSplashScreenTheme'' then
           set_item_text themeKey
             (if truthy cdvConfigPrefValue then the cdvConfigPrefValue
              else ''@style/Theme.Cordova.App.DayNight'') st
         else (None, emit Warn (''The theme property "'' @ themeKey @ ''" does not exist'') st))\<close>

definition theme_keys :: "string list" where
  "theme_keys =
     [''windowSplashScreenAnimatedIcon'', ''windowSplashScreenAnimationDuration'',
      ''android:windowSplashScreenBrandingImage'', ''windowSplashScreenIconBackgroundColor'',
      ''postSplashScreenTheme'']"

text \<open>
  What one call of \<open>updateProjectTheme\<close> does: the error thrown (\<open>None\<close> when it returns),
  the themes document written at the end (\<open>None\<close> when the write is not reached), the
  colors file as it is left, the events and the image calls. \<open>prefs key\<close> is
  \<open>platformConfig.getPreference(key, this.platform)\<close>; \<open>themes\<close> and \<open>colors\<close> are the
  root elements of the two parsed files.
\<close>

record theme_run =
  theme_outcome :: "error option"
  themes_written :: "element option"
  colors_left :: element
  theme_run_events :: "event list"
  theme_image_calls :: "(string \<times> string \<times> string option) list"

definition updateProjectTheme ::
  "(string \<Rightarrow> string option) \<Rightarrow> locations \<Rightarrow> element \<Rightarrow> element \<Rightarrow> theme_run" where
  "updateProjectTheme prefs locs themes colors =
     (case find_first (named ''style'' ''Theme.App.SplashScreen'') (children themes) of
        None \<Rightarrow>
          \<lparr>theme_outcome = Some null_find, themes_written = None, colors_left = colors,
           theme_run_events = snd (resolve_e2e (prefs ''AndroidEdgeToEdge'')),
           theme_image_calls = []\<rparr>
      | Some si \<Rightarrow>
          (let st0 = \<lparr>root_attrib = attrib themes,
                      style_items = children (children themes ! si),
                      colors_file = colors, theme_events = [], image_calls = []\<rparr>;
               r = fold (\<lambda>themeKey r. and_then r (theme_key_step prefs locs themeKey)) theme_keys
                     (and_then (theme_edge_to_edge prefs st0) (theme_splash_background prefs))
           in case r of
                (Some e, st) \<Rightarrow>
                  \<lparr>theme_outcome = Some e, themes_written = None, colors_left = colors_file st,
                   theme_run_events = theme_events st, theme_image_calls = image_calls st\<rparr>
              | (None, st) \<Rightarrow>
                  \<lparr>theme_outcome = None,
                   themes_written =
                     Some (set_attrib (root_attrib st)
                             (set_children
                                ((children themes)[si := set_children (style_items st) (children themes ! si)])
                                themes)),
                   colors_left = colors_file st,
                   theme_run_events = theme_events st
                     @ [(Verbose, ''Wrote out Android application themes to '' @ loc_themes locs)],
                   theme_image_calls = image_calls st\<rparr>))"

section \<open>Notions used in the statements\<close>

text \<open>
  A declaration that the loop of \<open>prepareIcons\<close> treats as a candidate for the default
  icon: \<open>!size && !icon.density\<close>.
\<close>

definition is_default_candidate :: "icon \<Rightarrow> bool" where
  "is_default_candidate icon = (\<not> truthy_num (icon_size icon) \<and> \<not> truthy (density icon))"

text \<open>The density a declaration resolves to, by its attribute or by its size.\<close>

definition resolved_density :: "icon \<Rightarrow> string option" where
  "resolved_density icon =
     (if is_default_candidate icon then None else icon_density icon (icon_size icon))"

text \<open>A platform-specific declaration: \<open>icon.platform\<close> is truthy.\<close>

definition is_platform_icon :: "icon \<Rightarrow> bool" where
  "is_platform_icon icon = truthy (platform icon)"

text \<open>Sample declarations: a legacy icon for a density, with or without a platform.\<close>

definition generic_icon :: "string \<Rightarrow> string \<Rightarrow> icon" where
  "generic_icon d s =
     \<lparr>src = Some s, density = Some d, platform = None, width = None, height = None,
      background = None, foreground = None, monochrome = None\<rparr>"

definition platform_icon :: "string \<Rightarrow> string \<Rightarrow> icon" where
  "platform_icon d s = (generic_icon d s)\<lparr>platform := Some ''android''\<rparr>"

text \<open>A declaration without density and size.\<close>

definition plain_icon :: "string \<Rightarrow> icon" where
  "plain_icon s =
     \<lparr>src = Some s, density = None, platform = None, width = None, height = None,
      background = None, foreground = None, monochrome = None\<rparr>"

text \<open>
  The numeric value of the \<open>i\<close>-th dot-separated component of a version, \<open>0\<close> when the
  version has no such component.
\<close>

definition component :: "string list \<Rightarrow> nat \<Rightarrow> nat" where
  "component cs i = (if i < length cs then nat_of_digits (cs ! i) else 0)"

text \<open>The items of the style \<open>Theme.App.SplashScreen\<close> in a themes document.\<close>

definition splash_items :: "element \<Rightarrow> element list" where
  "splash_items doc =
     (case find_first (named ''style'' ''Theme.App.SplashScreen'') (children doc) of
        None \<Rightarrow> []
      | Some i \<Rightarrow> children (children doc ! i))"

text \<open>The items with a given name among the items of a style.\<close>

definition items_named :: "string \<Rightarrow> element list \<Rightarrow> element list" where
  "items_named key items = filter (named ''item'' key) items"

text \<open>The color nodes with a given name in a colors document.\<close>

definition colors_named :: "string \<Rightarrow> element \<Rightarrow> element list" where
  "colors_named n colors = filter (named ''color'' n) (children colors)"

text \<open>The text of the first item with a given name, if there is such an item.\<close>

definition first_item_text :: "string \<Rightarrow> element list \<Rightarrow> string option option" where
  "first_item_text key items =
     (case items_named key items of [] \<Rightarrow> None | e # rest \<Rightarrow> Some (node_text e))"

text \<open>Sample documents in the shape of \<open>cdv_themes.xml\<close> and \<open>cdv_colors.xml\<close>.\<close>

definition sample_item :: "string \<Rightarrow> string \<Rightarrow> element" where
  "sample_item n t = Element ''item'' [(''name'', n)] (Some t) []"

definition sample_themes :: element where
  "sample_themes =
     Element ''resources'' [] None
       [Element ''style''
          [(''name'', ''Theme.App.SplashScreen''), (''parent'', ''Theme.SplashScreen.IconBackground'')]
          None
          [sample_item ''windowSplashScreenBackground'' ''@color/cdv_splashscreen_background'',
           sample_item ''windowSplashScreenAnimatedIcon'' ''@drawable/ic_cdv_splashscreen'',
           sample_item ''windowSplashScreenAnimationDuration'' ''200'',
           sample_item ''windowSplashScreenIconBackgroundColor'' ''@color/cdv_splashscreen_icon_background'',
           sample_item ''postSplashScreenTheme'' ''@style/Theme.Cordova.App.DayNight'',
           sample_item ''android:windowOptOutEdgeToEdgeEnforcement'' ''false'']]"

definition sample_colors :: element where
  "sample_colors =
     Element ''resources'' [] None
       [Element ''color'' [(''name'', ''cdv_splashscreen_background'')] (Some ''#FFFFFF'') [],
        Element ''color'' [(''name'', ''cdv_splashscreen_icon_background'')] (Some ''#112233'') []]"

definition sample_locations :: locations where
  "sample_locations = \<lparr>loc_themes = ''res/values/cdv_themes.xml'', loc_colors = ''res/values/cdv_colors.xml''\<rparr>"

text \<open>A configuration with one preference set.\<close>

definition only_pref :: "string \<Rightarrow> string \<Rightarrow> string \<Rightarrow> string option" where
  "only_pref key v k = (if k = key then Some v else None)"

text \<open>
  A foreground that is an image file: set, no colour reference and no \<open>.xml\<close> vector, by
  the tests of the validation loop.
\<close>

definition raster_foreground :: "icon \<Rightarrow> bool" where
  "raster_foreground icon =
     (truthy (foreground icon) \<and> \<not> startsWith (the (foreground icon)) ''@color'' \<and>
      extname (basename (the (foreground icon))) \<noteq> ''.xml'')"

text \<open>The declaration as the validation loop leaves it in \<open>icons\<close>.\<close>

definition derive_src :: "icon \<Rightarrow> icon" where
  "derive_src icon =
     (if raster_foreground icon \<and> \<not> truthy (src icon) then icon\<lparr>src := foreground icon\<rparr> else icon)"

text \<open>
  The message of the validation error: one sentence per error class that has offenders,
  each listing the identifiers of all its offenders in the order of the declarations.
\<close>

definition validation_message :: "icon list \<Rightarrow> string" where
  "validation_message icons =
     join '' ''
       ((if list_ex missing_attributes icons
         then [missing_attributes_message (map icon_ident (filter missing_attributes icons))] else [])
        @ (if list_ex legacy_icon_needed icons
           then [legacy_icon_needed_message (map icon_ident (filter legacy_icon_needed icons))] else []))"

text \<open>More sample declarations.\<close>

definition adaptive_icon :: "string option \<Rightarrow> string \<Rightarrow> string \<Rightarrow> icon" where
  "adaptive_icon d b f =
     \<lparr>src = None, density = d, platform = None, width = None, height = None,
      background = Some b, foreground = Some f, monochrome = None\<rparr>"

definition foreground_only_icon :: "string \<Rightarrow> string \<Rightarrow> icon" where
  "foreground_only_icon d f =
     \<lparr>src = None, density = Some d, platform = None, width = None, height = None,
      background = None, foreground = Some f, monochrome = None\<rparr>"

definition sized_icon :: "int \<Rightarrow> icon" where
  "sized_icon n =
     \<lparr>src = None, density = None, platform = None, width = None, height = Some n,
      background = None, foreground = None, monochrome = None\<rparr>"


text \<open>A path component: not empty, without slash, and neither \<open>.\<close> nor \<open>..\<close>.\<close>

definition plain_segment :: "string \<Rightarrow> bool" where
  "plain_segment s = (s \<noteq> [] \<and> CHR ''/'' \<notin> set s \<and> s \<noteq> ''.'' \<and> s \<noteq> ''..'')"

text \<open>
  The normalised components and the root of the resource directory, shared by all
  paths joined below it.
\<close>

definition dir_segments :: "string \<Rightarrow> string list" where
  "dir_segments dir =
     (if dir = [] then [] else normalize_segments (hd dir \<noteq> CHR ''/'') (split CHR ''/'' dir) [])"

definition dir_root :: "string \<Rightarrow> string" where
  "dir_root dir = (if dir \<noteq> [] \<and> hd dir = CHR ''/'' then ''/'' else [])"

text \<open>The file names of the adaptive layers in a \<open>-v26\<close> directory.\<close>

definition adaptive_names :: "string list" where
  "adaptive_names =
     [''ic_launcher_background.xml'', ''ic_launcher_background.png'',
      ''ic_launcher_foreground.xml'', ''ic_launcher_foreground.png'',
      ''ic_launcher_monochrome.xml'', ''ic_launcher_monochrome.png'']"

text \<open>
  One assignment \<open>resourceMap[target] = source\<close> of the adaptive pass for a density, or
  none.
\<close>

definition adaptive_write :: "string \<Rightarrow> string \<Rightarrow> resource_map \<Rightarrow> resource_map \<Rightarrow> bool" where
  "adaptive_write dir d m m' =
     (m' = m \<or> (\<exists>name sourceName v. name \<in> set adaptive_names \<and>
        m' = AList.update (getAdaptiveImageResourcePath dir ''mipmap'' d name sourceName) (Some v) m))"

text \<open>A declaration with both background and foreground: \<open>hasAdaptiveIcons\<close>.\<close>

definition is_adaptive :: "icon \<Rightarrow> bool" where
  "is_adaptive icon = (truthy (background icon) \<and> truthy (foreground icon))"

text \<open>No path of the list is mapped to \<open>null\<close>.\<close>

definition descriptors_kept :: "resource_map \<Rightarrow> string list \<Rightarrow> bool" where
  "descriptors_kept m ps = list_all (\<lambda>p. map_of m p \<noteq> Some None) ps"

text \<open>
  No path of the list is a key of the map, and each is the descriptor path of a density
  in \<open>K\<close>.
\<close>

definition descriptors_absent :: "string \<Rightarrow> string set \<Rightarrow> resource_map \<Rightarrow> string list \<Rightarrow> bool" where
  "descriptors_absent dir K m ps =
     list_all (\<lambda>p. map_of m p = None \<and> p \<in> launcherXmlPath dir ` K) ps"

text \<open>
  Density names without a slash, none of which is another one followed by \<open>-v26\<close> (so
  no legacy directory \<open>mipmap-<density>\<close> is the adaptive directory of another density).
\<close>

definition densities_ok :: "string set \<Rightarrow> bool" where
  "densities_ok K = (\<forall>d\<in>K. d \<noteq> [] \<and> CHR ''/'' \<notin> set d \<and> d @ ''-v26'' \<notin> K)"

text \<open>One assignment \<open>resourceMap[targetPath] = src\<close> of the legacy pass.\<close>

definition legacy_write :: "string \<Rightarrow> string set \<Rightarrow> resource_map \<Rightarrow> resource_map \<Rightarrow> bool" where
  "legacy_write dir K m m' =
     (\<exists>d sourceName v. d \<in> K \<and>
        m' = AList.update (getImageResourcePath dir ''mipmap'' d ''ic_launcher'' sourceName) (Some v) m)"

text \<open>The densities the declarations resolve to, in order.\<close>

definition resolved_densities :: "icon list \<Rightarrow> string list" where
  "resolved_densities icons = List.map_filter resolved_density icons"

text \<open>Sample input of \<open>updateIcons\<close>.\<close>

definition sample_adaptive_input :: "icon list" where
  "sample_adaptive_input =
     [adaptive_icon (Some ''mdpi'') ''@color/bg'' ''res/fg.png'', generic_icon ''hdpi'' ''res/icon.png'']"

definition sample_folders :: "string list" where
  "sample_folders = [''mipmap-mdpi'', ''mipmap-mdpi-v26'', ''mipmap-hdpi'']"








section \<open>Properties of prepareIcons\<close>

lemma icon_density_truthy: "icon_density i s = Some d \<Longrightarrow> truthy (Some d)"
  by (auto simp: icon_density_def SIZE_TO_DENSITY_MAP_def truthy_def split: if_splits option.splits)

lemma map_of_parseIcon:
  "map_of (parseIcon i s al) d =
     (if icon_density i s = Some d \<and>
         \<not> (case map_of al d of Some p \<Rightarrow> is_platform_icon p | None \<Rightarrow> False)
      then Some i else map_of al d)"
proof (cases "icon_density i s")
  case None
  then show ?thesis by (simp add: parseIcon_def truthy_def)
next
  case (Some e)
  then have "truthy (Some e)" by (rule icon_density_truthy)
  with Some show ?thesis
    by (auto simp: parseIcon_def Let_def update_conv' is_platform_icon_def split: option.splits)
qed

text \<open>
  The icon a slot ends with, from what it held before and the declarations written to
  it in order.
\<close>

lemma map_of_fold_parseIcon:
  "map_of (fold (\<lambda>i. parseIcon i (icon_size i)) xs al) d =
     (let ms = filter (\<lambda>i. icon_density i (icon_size i) = Some d) xs
      in case List.find is_platform_icon (case map_of al d of None \<Rightarrow> ms | Some p \<Rightarrow> p # ms) of
           Some p \<Rightarrow> Some p
         | None \<Rightarrow> if ms = [] then map_of al d else Some (last ms))"
proof (induction xs arbitrary: al)
  case Nil
  then show ?case by (simp split: option.splits)
next
  case (Cons x xs)
  show ?case
    by (simp add: Cons.IH map_of_parseIcon Let_def split: option.splits)
qed

lemma fold_prepare_default:
  "default_icon (fold prepare_step icons st) =
     (case default_icon st of Some d \<Rightarrow> Some d | None \<Rightarrow> List.find is_default_candidate icons)"
  by (induction icons arbitrary: st)
     (auto simp: prepare_step_def is_default_candidate_def split: option.splits)

lemma fold_prepare_events:
  "prepare_events (fold prepare_step icons st) =
     prepare_events st @
     (case default_icon st of
        Some d \<Rightarrow> map (\<lambda>i. (Verbose, extra_default_message i d)) (filter is_default_candidate icons)
      | None \<Rightarrow>
          (case filter is_default_candidate icons of
             [] \<Rightarrow> []
           | d # rest \<Rightarrow> map (\<lambda>i. (Verbose, extra_default_message i d)) rest))"
  by (induction icons arbitrary: st)
     (auto simp: prepare_step_def is_default_candidate_def split: option.splits)

lemma fold_prepare_android_icons:
  "android_icons (fold prepare_step icons st) =
     fold (\<lambda>i. parseIcon i (icon_size i)) (filter (\<lambda>i. \<not> is_default_candidate i) icons)
       (android_icons st)"
  by (induction icons arbitrary: st)
     (auto simp: prepare_step_def is_default_candidate_def split: option.splits)

lemma filter_resolved_density:
  "(\<lambda>i. \<not> is_default_candidate i \<and> icon_density i (icon_size i) = Some d)
     = (\<lambda>i. resolved_density i = Some d)"
  by (auto simp: resolved_density_def fun_eq_iff)

text \<open>
  C1 (as amended). After \<open>prepareIcons\<close>, the slot of a density holds the first
  platform-specific declaration that resolves to this density (by its density attribute
  or by its size) when there is one, and otherwise the last declaration that resolves to
  it. So a slot filled by a platform-specific declaration is never overwritten, and a
  slot filled by a declaration without platform is overwritten by the next declaration
  for the same density.
\<close>

theorem prepareIcons_slot:
  "map_of (android_icons (prepareIcons icons)) d =
     (let ms = filter (\<lambda>i. resolved_density i = Some d) icons
      in case List.find is_platform_icon ms of
           Some p \<Rightarrow> Some p
         | None \<Rightarrow> if ms = [] then None else Some (last ms))"
  by (simp add: prepareIcons_def fold_prepare_android_icons map_of_fold_parseIcon
      filter_resolved_density Let_def)

theorem prepareIcons_slot_witness:
  "map_of (android_icons (prepareIcons
      [generic_icon ''hdpi'' ''first.png'', platform_icon ''hdpi'' ''second.png'',
       platform_icon ''hdpi'' ''third.png'', generic_icon ''hdpi'' ''fourth.png''])) ''hdpi''
     = Some (platform_icon ''hdpi'' ''second.png'')"
  using prepareIcons_slot [of "[generic_icon ''hdpi'' ''first.png'', platform_icon ''hdpi'' ''second.png'',
       platform_icon ''hdpi'' ''third.png'', generic_icon ''hdpi'' ''fourth.png'']" "''hdpi''"]
  by (simp add: resolved_density_def is_default_candidate_def icon_density_def icon_size_def
      truthy_def truthy_num_def is_platform_icon_def generic_icon_def platform_icon_def)

text \<open>
  C1 as stated fails: two declarations without platform for the density \<open>mdpi\<close>; the slot
  ends with the second one.
\<close>

theorem prepareIcons_first_overwritten:
  "resolved_density (generic_icon ''mdpi'' ''first.png'') = Some ''mdpi'' \<and>
   resolved_density (generic_icon ''mdpi'' ''second.png'') = Some ''mdpi'' \<and>
   generic_icon ''mdpi'' ''first.png'' \<noteq> generic_icon ''mdpi'' ''second.png'' \<and>
   map_of (android_icons (prepareIcons
      [generic_icon ''mdpi'' ''first.png'', generic_icon ''mdpi'' ''second.png''])) ''mdpi''
     = Some (generic_icon ''mdpi'' ''second.png'')"
  by (simp add: prepareIcons_def prepare_step_def parseIcon_def resolved_density_def
      is_default_candidate_def icon_density_def icon_size_def truthy_def truthy_num_def
      generic_icon_def)

text \<open>
  C5. The default icon is the first declaration with neither size nor density; each
  later such declaration only produces the event naming it as an ignored duplicate
  (with its content and the content of the default kept), in order, and leaves the
  per-density icons as they are without it.
\<close>

theorem prepareIcons_default_first_wins:
  "default_icon (prepareIcons icons) = List.find is_default_candidate icons \<and>
   prepare_events (prepareIcons icons) =
     (case filter is_default_candidate icons of
        [] \<Rightarrow> []
      | d # rest \<Rightarrow> map (\<lambda>i. (Verbose, extra_default_message i d)) rest) \<and>
   android_icons (prepareIcons icons) =
     android_icons (prepareIcons (filter (\<lambda>i. \<not> is_default_candidate i) icons))"
  by (simp add: prepareIcons_def fold_prepare_default fold_prepare_events
      fold_prepare_android_icons)

theorem prepareIcons_default_first_wins_witness:
  \<open>default_icon (prepareIcons [plain_icon ''a.png'', generic_icon ''mdpi'' ''m.png'', plain_icon ''b.png''])
     = Some (plain_icon ''a.png'') \<and>
   prepare_events (prepareIcons [plain_icon ''a.png'', generic_icon ''mdpi'' ''m.png'', plain_icon ''b.png''])
     = [(Verbose, ''Found extra default icon: {"src":"b.png"} and ignoring in favor of {"src":"a.png"}.'')]\<close>
  using prepareIcons_default_first_wins
    [of "[plain_icon ''a.png'', generic_icon ''mdpi'' ''m.png'', plain_icon ''b.png'']"]
  by (simp add: is_default_candidate_def icon_size_def truthy_def truthy_num_def plain_icon_def
      generic_icon_def extra_default_message_def icon_summary_def json_stringify_def
      json_quote_def json_escape_char_def)

section \<open>Properties of default_versionCode\<close>

lemma split_no_sep: "c \<notin> set x \<Longrightarrow> split c x = [x]"
  by (induction x) auto

lemma split_append_sep: "c \<notin> set x \<Longrightarrow> split c (x @ c # rest) = x # split c rest"
  by (induction x) auto

lemma join_Cons: "join sep (x # xs) = (if xs = [] then x else x @ sep @ join sep xs)"
  by (cases xs) auto

lemma split_join:
  "cs \<noteq> [] \<Longrightarrow> list_all (\<lambda>x. c \<notin> set x) cs \<Longrightarrow> split c (join [c] cs) = cs"
  by (induction cs) (auto simp: join_Cons split_no_sep split_append_sep)

lemma digits_no_char: "list_all is_digit s \<Longrightarrow> \<not> is_digit c \<Longrightarrow> c \<notin> set s"
  by (auto simp: list_all_iff)

lemma digits_join_no_dash:
  "list_all (list_all is_digit) cs \<Longrightarrow> CHR ''-'' \<notin> set (join ''.'' cs)"
  by (induction cs) (auto simp: join_Cons is_digit_def list_all_iff)

lemma digit_not_space: "is_digit c \<Longrightarrow> \<not> is_space c"
  by (auto simp: is_digit_def is_space_def)

lemma trim_digits: "list_all is_digit s \<Longrightarrow> trim s = s"
proof -
  assume d: "list_all is_digit s"
  have 1: "dropWhile is_space s = s"
    using d by (cases s) (auto simp: digit_not_space)
  have 2: "dropWhile is_space (rev s) = rev s"
    using d by (cases s rule: rev_cases) (auto simp: digit_not_space)
  show ?thesis by (simp add: trim_def 1 2)
qed

lemma to_number_digits:
  assumes "list_all is_digit s"
  shows "to_number (Some s) = num (nat_of_digits s)"
proof (cases "s = []")
  case True
  then show ?thesis by (simp add: to_number_def trim_def nat_of_digits_def num_def)
next
  case False
  have pre: "\<not> startsWith s [CHR ''0'', x]" if "\<not> is_digit x" for x
    using assms that by (cases s; cases "tl s") (auto simp: startsWith_def)
  have hd: "hd s \<noteq> CHR ''+''" using assms False by (cases s) (auto simp: is_digit_def)
  have inf: "s \<noteq> ''Infinity''" using assms by (auto simp: is_digit_def)
  have tw: "takeWhile is_digit s = s" "dropWhile is_digit s = []"
    using assms by (auto simp: list_all_iff)
  show ?thesis
    using False hd inf pre[of "CHR ''x''"] pre[of "CHR ''X''"] pre[of "CHR ''o''"]
      pre[of "CHR ''O''"] pre[of "CHR ''b''"] pre[of "CHR ''B''"]
    by (simp add: to_number_def trim_digits[OF assms] parse_decimal_def tw is_digit_def)
qed

lemma to_number_undefined: "to_number None = NaN"
  by (simp add: to_number_def)

lemma to_number_component:
  assumes "list_all (list_all is_digit) cs"
  shows "(if truthy_jsnum (to_number (element_at cs i)) then to_number (element_at cs i) else Num 0)
     = num (component cs i)"
proof (cases "i < length cs")
  case True
  with assms have "list_all is_digit (cs ! i)" by (simp add: list_all_length)
  then have "to_number (Some (cs ! i)) = num (nat_of_digits (cs ! i))" by (rule to_number_digits)
  with True show ?thesis
    by (auto simp: element_at_def component_def truthy_jsnum_def num_def)
next
  case False
  then show ?thesis
    by (simp add: element_at_def component_def to_number_undefined truthy_jsnum_def num_def)
qed

lemma num_le: "n \<le> 2 ^ 53 \<Longrightarrow> num n = Num n"
  by (simp add: num_def)

lemma version_step_times:
  assumes x: "(if truthy_jsnum x then x else Num 0) = num c"
    and le: "acc + c * k \<le> 2 ^ 53" and k: "0 < k"
  shows "(if truthy_jsnum x then js_plus (Num acc) (js_times x k) else Num acc) = Num (acc + c * k)"
proof -
  have "c \<le> c * k" using k by simp
  with le have c: "c \<le> 2 ^ 53" and ck: "c * k \<le> 2 ^ 53" by linarith+
  show ?thesis
  proof (cases "truthy_jsnum x")
    case True
    with x c have "x = Num c" by (simp add: num_le)
    then show ?thesis using True le ck by (simp add: js_plus_def js_times_def num_le)
  next
    case False
    with x c have "c = 0" by (simp add: num_le)
    with False show ?thesis by simp
  qed
qed

lemma version_step_plus:
  assumes x: "(if truthy_jsnum x then x else Num 0) = num c"
    and le: "acc + c \<le> 2 ^ 53"
  shows "(if truthy_jsnum x then js_plus (Num acc) x else Num acc) = Num (acc + c)"
proof -
  from le have c: "c \<le> 2 ^ 53" by linarith
  show ?thesis
  proof (cases "truthy_jsnum x")
    case True
    with x c have "x = Num c" by (simp add: num_le)
    then show ?thesis using True le by (simp add: js_plus_def num_le)
  next
    case False
    with x c have "c = 0" by (simp add: num_le)
    with False show ?thesis by simp
  qed
qed

text \<open>
  C10. For a version made of decimal components joined by dots, optionally followed by
  a suffix that starts with \<open>-\<close>, \<open>default_versionCode\<close> is
  \<open>MAJOR * 10000 + MINOR * 100 + PATCH\<close> (a missing component counts as zero), as long
  as this number is one that a double holds exactly.
\<close>

theorem default_versionCode_formula:
  assumes cs: "cs \<noteq> []" "list_all (list_all is_digit) cs"
    and suffix: "suffix = [] \<or> hd suffix = CHR ''-''"
    and bound: "10000 * component cs 0 + 100 * component cs 1 + component cs 2 \<le> 2 ^ 53"
  shows "default_versionCode (join ''.'' cs @ suffix) =
           Num (10000 * component cs 0 + 100 * component cs 1 + component cs 2)"
proof -
  have nodash: "CHR ''-'' \<notin> set (join ''.'' cs)" using cs(2) by (rule digits_join_no_dash)
  have "hd (split CHR ''-'' (join ''.'' cs @ suffix)) = join ''.'' cs"
  proof (cases suffix)
    case Nil then show ?thesis using nodash by (simp add: split_no_sep)
  next
    case (Cons a list)
    with suffix have "a = CHR ''-''" by simp
    with Cons show ?thesis using nodash by (simp add: split_append_sep)
  qed
  moreover have "split CHR ''.'' (join ''.'' cs) = cs"
  proof (rule split_join)
    show "cs \<noteq> []" by (rule cs(1))
    have "\<not> is_digit CHR ''.''" by (simp add: is_digit_def)
    then show "list_all (\<lambda>x. CHR ''.'' \<notin> set x) cs"
      using cs(2) by (auto simp: list_all_iff)
  qed
  ultimately have nums: "split CHR ''.'' (hd (split CHR ''-'' (join ''.'' cs @ suffix))) = cs"
    by simp
  have b1: "0 + component cs 0 * 10000 \<le> (2::nat) ^ 53"
    and b2: "component cs 0 * 10000 + component cs 1 * 100 \<le> (2::nat) ^ 53"
    and b3: "component cs 0 * 10000 + component cs 1 * 100 + component cs 2 \<le> (2::nat) ^ 53"
    using bound by linarith+
  have s1: "(if truthy_jsnum (to_number (element_at cs 0))
             then js_plus (Num 0) (js_times (to_number (element_at cs 0)) 10000) else Num 0)
            = Num (0 + component cs 0 * 10000)"
    by (rule version_step_times [OF to_number_component [OF cs(2)] b1]) simp
  have s2: "(if truthy_jsnum (to_number (element_at cs 1))
             then js_plus (Num (component cs 0 * 10000)) (js_times (to_number (element_at cs 1)) 100)
             else Num (component cs 0 * 10000))
            = Num (component cs 0 * 10000 + component cs 1 * 100)"
    by (rule version_step_times [OF to_number_component [OF cs(2)] b2]) simp
  have s3: "(if truthy_jsnum (to_number (element_at cs 2))
             then js_plus (Num (component cs 0 * 10000 + component cs 1 * 100))
                    (to_number (element_at cs 2))
             else Num (component cs 0 * 10000 + component cs 1 * 100))
            = Num (component cs 0 * 10000 + component cs 1 * 100 + component cs 2)"
    by (rule version_step_plus [OF to_number_component [OF cs(2)] b3])
  have "default_versionCode (join ''.'' cs @ suffix)
          = Num (component cs 0 * 10000 + component cs 1 * 100 + component cs 2)"
    unfolding default_versionCode_def nums Let_def s1 add_0 s2 s3 ..
  then show ?thesis by (simp add: mult.commute)
qed



theorem default_versionCode_formula_witness:
  "default_versionCode ''2.3.4'' = Num 20304 \<and> default_versionCode ''1.0'' = Num 10000 \<and>
   default_versionCode ''1.2.3-beta.4'' = Num 10203"
  using default_versionCode_formula [of "[''2'', ''3'', ''4'']" "[]"]
    default_versionCode_formula [of "[''1'', ''0'']" "[]"]
    default_versionCode_formula [of "[''1'', ''2'', ''3'']" "''-beta.4''"]
  by (simp add: component_def nat_of_digits_def is_digit_def)

section \<open>Properties of the theme and colors documents\<close>

lemma find_first_Some:
  "find_first P xs = Some i \<Longrightarrow> i < length xs \<and> P (xs ! i) \<and> filter P (take i xs) = []"
proof (induction xs arbitrary: i)
  case Nil then show ?case by simp
next
  case (Cons x xs)
  show ?case
  proof (cases "P x")
    case True with Cons.prems show ?thesis by simp
  next
    case False
    with Cons.prems obtain j where j: "find_first P xs = Some j" "i = Suc j" by auto
    from Cons.IH[OF j(1)] j(2) False show ?thesis by simp
  qed
qed

lemma find_first_None: "find_first P xs = None \<Longrightarrow> filter P xs = []"
  by (induction xs) (auto split: if_splits)

lemma filter_split_at:
  assumes "i < length xs"
  shows "filter P xs =
           filter P (take i xs) @ (if P (xs ! i) then [xs ! i] else []) @ filter P (drop (Suc i) xs)"
proof -
  have "filter P xs = filter P (take i xs @ xs ! i # drop (Suc i) xs)"
    using id_take_nth_drop [OF assms] by (rule arg_cong)
  then show ?thesis by simp
qed

lemma filter_update:
  "i < length xs \<Longrightarrow> filter P (xs[i := y]) = filter P (take i xs) @ (if P y then [y] else []) @ filter P (drop (Suc i) xs)"
  by (simp add: upd_conv_take_nth_drop)

lemma filter_remove_at:
  "i < length xs \<Longrightarrow> filter P (remove_at i xs) = filter P (take i xs) @ filter P (drop (Suc i) xs)"
  by (simp add: remove_at_def)

lemma filter_update_other:
  "i < length xs \<Longrightarrow> \<not> P (xs ! i) \<Longrightarrow> \<not> P y \<Longrightarrow> filter P (xs[i := y]) = filter P xs"
  by (simp add: filter_update filter_split_at[of i xs P])

lemma filter_remove_other:
  "i < length xs \<Longrightarrow> \<not> P (xs ! i) \<Longrightarrow> filter P (remove_at i xs) = filter P xs"
  by (simp add: filter_remove_at filter_split_at[of i xs P])

lemma filter_update_first:
  "find_first P xs = Some i \<Longrightarrow> P y \<Longrightarrow> filter P (xs[i := y]) = y # tl (filter P xs)"
  using find_first_Some[of P xs i] by (simp add: filter_update filter_split_at[of i xs P])

lemma filter_remove_first:
  "find_first P xs = Some i \<Longrightarrow> filter P (remove_at i xs) = tl (filter P xs)"
  using find_first_Some[of P xs i] by (simp add: filter_remove_at filter_split_at[of i xs P])

lemma named_set_text [simp]: "named tg n (set_text t e) = named tg n e"
  by (simp add: named_def set_text_def)

lemma named_other: "named tg n e \<Longrightarrow> n \<noteq> k \<Longrightarrow> \<not> named tg k e"
  by (auto simp: named_def)

lemma named_makeelement [simp]:
  "named tg k (makeelement tg' ((''name'', n) # rest)) = (tg' = tg \<and> n = k)"
  by (auto simp: named_def makeelement_def)

lemma node_text_set_text [simp]: "node_text (set_text t e) = Some t"
  by (simp add: set_text_def)

lemma set_item_text_other:
  assumes "set_item_text key t st = (None, st')" "key \<noteq> K"
  shows "items_named K (style_items st') = items_named K (style_items st) \<and>
         colors_file st' = colors_file st"
proof -
  from assms(1) obtain i where i: "find_first (named ''item'' key) (style_items st) = Some i"
    and st': "st' = st\<lparr>style_items := (style_items st)[i := set_text t (style_items st ! i)]\<rparr>"
    by (auto simp: set_item_text_def split: option.splits)
  from find_first_Some[OF i] assms(2)
  have "i < length (style_items st)" "\<not> named ''item'' K (style_items st ! i)"
    by (auto dest: named_other)
  then show ?thesis by (simp add: st' items_named_def filter_update_other)
qed

lemma set_item_text_same:
  assumes "set_item_text K t st = (None, st')"
  shows "first_item_text K (style_items st') = Some (Some t) \<and> colors_file st' = colors_file st"
proof -
  from assms(1) obtain i where i: "find_first (named ''item'' K) (style_items st) = Some i"
    and st': "st' = st\<lparr>style_items := (style_items st)[i := set_text t (style_items st ! i)]\<rparr>"
    by (auto simp: set_item_text_def split: option.splits)
  from find_first_Some[OF i] have "named ''item'' K (set_text t (style_items st ! i))" by simp
  from filter_update_first[OF i this] show ?thesis
    by (simp add: st' items_named_def first_item_text_def)
qed

lemma and_then_None:
  assumes "and_then r f = (None, s')"
  obtains s where "r = (None, s)" "f s = (None, s')"
  using assms by (cases r) (auto simp: and_then_def split: option.splits)

lemma append_update_last: "(xs @ [y])[length xs := z] = xs @ [z]"
  by simp

lemma branding_other:
  assumes "key \<noteq> K"
  shows "items_named K (style_items (theme_branding_image key pk v st)) = items_named K (style_items st) \<and>
         colors_file (theme_branding_image key pk v st) = colors_file st"
proof (cases "find_first (named ''item'' key) (style_items st)")
  case None
  then show ?thesis using assms
    by (simp add: theme_branding_image_def Let_def emit_def items_named_def)
next
  case (Some i)
  from find_first_Some[OF Some] assms
  have "i < length (style_items st)" "\<not> named ''item'' K (style_items st ! i)"
    by (auto dest: named_other)
  then show ?thesis using Some
    by (simp add: theme_branding_image_def Let_def emit_def items_named_def filter_update_other
        filter_remove_other)
qed

lemma icon_background_other:
  assumes "key \<noteq> K"
  shows "items_named K (style_items (theme_icon_background_color locs key v st)) = items_named K (style_items st)"
proof (cases "find_first (named ''item'' key) (style_items st)")
  case None
  then show ?thesis using assms
    by (simp add: theme_icon_background_color_def Let_def emit_def items_named_def)
next
  case (Some i)
  from find_first_Some[OF Some] assms
  have "i < length (style_items st)" "\<not> named ''item'' K (style_items st ! i)"
    by (auto dest: named_other)
  then show ?thesis using Some
    by (simp add: theme_icon_background_color_def Let_def emit_def items_named_def filter_update_other
        filter_remove_other)
qed

lemma theme_key_step_other:
  assumes "theme_key_step prefs locs key st = (None, st')" "key \<noteq> K"
  shows "items_named K (style_items st') = items_named K (style_items st)"
  using assms
  by (auto simp: theme_key_step_def Let_def emit_def branding_other icon_background_other
      dest: set_item_text_other split: if_splits)

lemma fold_key_steps_other:
  assumes "fold (\<lambda>k r. and_then r (theme_key_step prefs locs k)) ks r0 = (None, st')"
    and "K \<notin> set ks"
  shows "\<exists>st. r0 = (None, st) \<and> items_named K (style_items st') = items_named K (style_items st)"
  using assms
proof (induction ks arbitrary: r0)
  case Nil
  then show ?case by simp
next
  case (Cons k ks)
  from Cons.prems have "fold (\<lambda>k r. and_then r (theme_key_step prefs locs k)) ks
      (and_then r0 (theme_key_step prefs locs k)) = (None, st')" and nk: "k \<noteq> K" and "K \<notin> set ks"
    by auto
  from Cons.IH[OF this(1) this(3)] obtain st1 where
    st1: "and_then r0 (theme_key_step prefs locs k) = (None, st1)"
    and eq: "items_named K (style_items st') = items_named K (style_items st1)" by blast
  from st1 obtain s where s: "r0 = (None, s)" "theme_key_step prefs locs k s = (None, st1)"
    by (rule and_then_None)
  from theme_key_step_other[OF s(2) nk] eq s(1) show ?case by simp
qed

lemma find_first_update_same:
  "find_first P xs = Some i \<Longrightarrow> P y \<Longrightarrow> find_first P (xs[i := y]) = Some i"
proof (induction xs arbitrary: i)
  case Nil then show ?case by simp
next
  case (Cons x xs)
  then show ?case by (cases i) (auto split: if_splits)
qed

lemma children_set_children: "children (set_children cs e) = cs"
  by (simp add: set_children_def)

lemma children_set_attrib: "children (set_attrib a e) = children e"
  by (simp add: set_attrib_def)

lemma named_set_children: "named tg n (set_children cs e) = named tg n e"
  by (simp add: named_def set_children_def)

lemma splash_items_written:
  assumes "find_first (named ''style'' ''Theme.App.SplashScreen'') (children themes) = Some si"
  shows "splash_items (set_attrib a (set_children
            ((children themes)[si := set_children items (children themes ! si)]) themes)) = items"
proof -
  from find_first_Some[OF assms] have si: "si < length (children themes)"
    and P: "named ''style'' ''Theme.App.SplashScreen'' (children themes ! si)"
    by blast+
  from P have P': "named ''style'' ''Theme.App.SplashScreen'' (set_children items (children themes ! si))"
    by (simp only: named_set_children)
  have f: "find_first (named ''style'' ''Theme.App.SplashScreen'')
             ((children themes)[si := set_children items (children themes ! si)]) = Some si"
    using assms P' by (rule find_first_update_same)
  show ?thesis
    unfolding splash_items_def children_set_attrib children_set_children f option.case
    using si by (simp only: nth_list_update_eq children_set_children)
qed

lemma run_eq:
  assumes Some: "find_first (named ''style'' ''Theme.App.SplashScreen'') (children themes) = Some si"
  shows "updateProjectTheme prefs locs themes colors =
     (case fold (\<lambda>themeKey r. and_then r (theme_key_step prefs locs themeKey)) theme_keys
                     (and_then (theme_edge_to_edge prefs \<lparr>root_attrib = attrib themes, style_items = children (children themes ! si),
        colors_file = colors, theme_events = [], image_calls = []\<rparr>) (theme_splash_background prefs)) of
                (Some e, st) \<Rightarrow>
                  \<lparr>theme_outcome = Some e, themes_written = None, colors_left = colors_file st,
                   theme_run_events = theme_events st, theme_image_calls = image_calls st\<rparr>
              | (None, st) \<Rightarrow>
                  \<lparr>theme_outcome = None,
                   themes_written =
                     Some (set_attrib (root_attrib st)
                             (set_children
                                ((children themes)[si := set_children (style_items st) (children themes ! si)])
                                themes)),
                   colors_left = colors_file st,
                   theme_run_events = theme_events st
                     @ [(Verbose, ''Wrote out Android application themes to '' @ loc_themes locs)],
                   theme_image_calls = image_calls st\<rparr>)"
  unfolding updateProjectTheme_def Some Let_def option.case by (rule refl)

lemma fold_and_then_start:
  assumes "fold (\<lambda>k r. and_then r (f k)) ks r0 = (None, s')"
  obtains s where "r0 = (None, s)"
  using assms
proof (induction ks arbitrary: r0 thesis)
  case Nil
  then show ?case by simp
next
  case (Cons k ks)
  from Cons.prems(2) have "fold (\<lambda>k r. and_then r (f k)) ks (and_then r0 (f k)) = (None, s')"
    by simp
  then obtain s1 where "and_then r0 (f k) = (None, s1)" by (rule Cons.IH[rotated])
  then obtain s where "r0 = (None, s)" by (rule and_then_None)
  then show ?case by (rule Cons.prems(1))
qed

lemma theme_run_success:
  assumes "theme_outcome (updateProjectTheme prefs locs themes colors) = None"
  obtains si st st1 where
    "find_first (named ''style'' ''Theme.App.SplashScreen'') (children themes) = Some si"
    "theme_edge_to_edge prefs
       \<lparr>root_attrib = attrib themes, style_items = children (children themes ! si),
        colors_file = colors, theme_events = [], image_calls = []\<rparr> = (None, st1)"
    "fold (\<lambda>themeKey r. and_then r (theme_key_step prefs locs themeKey)) theme_keys
       (theme_splash_background prefs st1) = (None, st)"
    "splash_items (the (themes_written (updateProjectTheme prefs locs themes colors))) = style_items st"
    "colors_left (updateProjectTheme prefs locs themes colors) = colors_file st"
proof (cases "find_first (named ''style'' ''Theme.App.SplashScreen'') (children themes)")
  case None
  with assms show ?thesis by (simp add: updateProjectTheme_def)
next
  case (Some si)
  let ?A = "theme_edge_to_edge prefs
       \<lparr>root_attrib = attrib themes, style_items = children (children themes ! si),
        colors_file = colors, theme_events = [], image_calls = []\<rparr>"
  let ?r = "fold (\<lambda>themeKey r. and_then r (theme_key_step prefs locs themeKey)) theme_keys
              (and_then ?A (theme_splash_background prefs))"
  note run = run_eq [OF Some, of prefs locs colors]
  obtain e st where r: "?r = (e, st)" by (cases ?r)
  have e: "e = None"
  proof (cases e)
    case None then show ?thesis .
  next
    case (Some x)
    have "theme_outcome (updateProjectTheme prefs locs themes colors) = Some x"
      unfolding run r Some by simp
    with assms show ?thesis by simp
  qed
  have full: "?r = (None, st)" using r e by simp
  then obtain s2 where s2: "and_then ?A (theme_splash_background prefs) = (None, s2)"
    by (rule fold_and_then_start)
  then obtain st1 where st1: "?A = (None, st1)" "theme_splash_background prefs st1 = (None, s2)"
    by (rule and_then_None)
  have f: "fold (\<lambda>themeKey r. and_then r (theme_key_step prefs locs themeKey)) theme_keys
       (theme_splash_background prefs st1) = (None, st)"
    using full unfolding s2 st1(2) .
  have w: "splash_items (the (themes_written (updateProjectTheme prefs locs themes colors))) = style_items st"
    unfolding run full by (simp add: splash_items_written[OF Some])
  have c: "colors_left (updateProjectTheme prefs locs themes colors) = colors_file st"
    unfolding run full by simp
  show ?thesis by (rule that[OF Some st1(1) f w c])
qed

lemma edge_to_edge_item:
  assumes "theme_edge_to_edge prefs st = (None, st')"
  shows "first_item_text optOutE2EKey (style_items st') =
           Some (Some (if fst (resolve_e2e (prefs ''AndroidEdgeToEdge'')) then ''false'' else ''true''))"
proof -
  obtain h evs where he: "resolve_e2e (prefs ''AndroidEdgeToEdge'') = (h, evs)" by (cases "resolve_e2e (prefs ''AndroidEdgeToEdge'')")
  from assms he obtain s where
    s: "set_item_text optOutE2EKey (if \<not> h then ''true'' else ''false'')
          (st\<lparr>theme_events := theme_events st @ evs\<rparr>) = (None, s)"
    and st': "st' = emit Verbose (''Updating theme item '' @ [CHR 0x22] @ optOutE2EKey @ [CHR 0x22]
          @ '' with value '' @ [CHR 0x22] @ (if \<not> h then ''true'' else ''false'') @ [CHR 0x22]) s"
    by (auto simp: theme_edge_to_edge_def Let_def elim!: and_then_None)
  from set_item_text_same[OF s] show ?thesis by (auto simp: st' emit_def he)
qed

lemma first_item_text_cong:
  "items_named K xs = items_named K ys \<Longrightarrow> first_item_text K xs = first_item_text K ys"
  by (simp add: first_item_text_def)

lemma optOut_not_theme_key: "optOutE2EKey \<notin> set theme_keys"
  by (simp add: optOutE2EKey_def theme_keys_def)

lemma splash_background_other:
  assumes "theme_splash_background prefs st = (None, st')" "K \<noteq> ''windowSplashScreenBackground''"
  shows "items_named K (style_items st') = items_named K (style_items st)"
  using assms
  by (auto simp: theme_splash_background_def Let_def emit_def dest!: set_item_text_other[where K = K])

text \<open>
  C9. The edge-to-edge flag is true exactly for the preference value \<open>true\<close>; the
  invalid-value event is emitted exactly for a non-empty value other than \<open>true\<close> and
  \<open>false\<close>; and whenever \<open>updateProjectTheme\<close> returns, the opt-out item of the splash
  screen style in the written themes document reads \<open>true\<close> exactly when the flag is
  false.
\<close>

theorem edge_to_edge_resolution:
  \<open>fst (resolve_e2e pref) = (pref = Some ''true'') \<and>
   (snd (resolve_e2e pref) =
      [(Verbose, ''Preference name "AndroidEdgeToEdge" has an invalid value. Valid values are "true" or "false". Defaulting to "false"'')])
     = (truthy pref \<and> pref \<noteq> Some ''true'' \<and> pref \<noteq> Some ''false'') \<and>
   (theme_outcome (updateProjectTheme prefs locs themes colors) = None \<longrightarrow>
     first_item_text optOutE2EKey
       (splash_items (the (themes_written (updateProjectTheme prefs locs themes colors))))
     = Some (Some (if prefs ''AndroidEdgeToEdge'' = Some ''true'' then ''false'' else ''true'')))\<close>
proof (intro conjI impI)
  show 1: "fst (resolve_e2e p) = (p = Some ''true'')" for p
    by (cases p) (auto simp: resolve_e2e_def truthy_def Let_def)
  show \<open>(snd (resolve_e2e pref) =
      [(Verbose, ''Preference name "AndroidEdgeToEdge" has an invalid value. Valid values are "true" or "false". Defaulting to "false"'')])
     = (truthy pref \<and> pref \<noteq> Some ''true'' \<and> pref \<noteq> Some ''false'')\<close>
    by (cases pref) (auto simp: resolve_e2e_def truthy_def Let_def)
  assume "theme_outcome (updateProjectTheme prefs locs themes colors) = None"
  then obtain si st st1 where
    e2e: "theme_edge_to_edge prefs
       \<lparr>root_attrib = attrib themes, style_items = children (children themes ! si),
        colors_file = colors, theme_events = [], image_calls = []\<rparr> = (None, st1)"
    and f: "fold (\<lambda>themeKey r. and_then r (theme_key_step prefs locs themeKey)) theme_keys
       (theme_splash_background prefs st1) = (None, st)"
    and w: "splash_items (the (themes_written (updateProjectTheme prefs locs themes colors))) = style_items st"
    by (rule theme_run_success)
  from fold_key_steps_other[OF f optOut_not_theme_key] obtain st2 where
    bg: "theme_splash_background prefs st1 = (None, st2)"
    and eq2: "items_named optOutE2EKey (style_items st) = items_named optOutE2EKey (style_items st2)"
    by blast
  have eq1: "items_named optOutE2EKey (style_items st2) = items_named optOutE2EKey (style_items st1)"
    by (rule splash_background_other[OF bg]) (simp add: optOutE2EKey_def)
  have "first_item_text optOutE2EKey (style_items st) = first_item_text optOutE2EKey (style_items st1)"
    by (rule first_item_text_cong) (simp only: eq1 eq2)
  also note edge_to_edge_item[OF e2e]
  finally show "first_item_text optOutE2EKey
       (splash_items (the (themes_written (updateProjectTheme prefs locs themes colors))))
     = Some (Some (if prefs ''AndroidEdgeToEdge'' = Some ''true'' then ''false'' else ''true''))"
    unfolding w 1 .
qed

lemma colors_unset:
  assumes "\<not> truthy v" "length (colors_named icon_background_name colors) \<le> 1"
  shows "colors_named icon_background_name (updateProjectSplashScreenIconBackgroundColor v colors) = []"
proof (cases "find_first (named ''color'' icon_background_name) (children colors)")
  case None
  from find_first_None[OF None] assms(1) None show ?thesis
    by (simp add: updateProjectSplashScreenIconBackgroundColor_def colors_named_def)
next
  case (Some i)
  from assms(2) have "tl (filter (named ''color'' icon_background_name) (children colors)) = []"
    by (cases "filter (named ''color'' icon_background_name) (children colors)")
       (simp_all add: colors_named_def)
  with filter_remove_first[OF Some] assms(1) Some show ?thesis
    by (simp add: updateProjectSplashScreenIconBackgroundColor_def colors_named_def
        children_set_children)
qed

lemma colors_at_most_one:
  assumes "length (colors_named icon_background_name colors) \<le> 1"
  shows "length (colors_named icon_background_name
           (updateProjectSplashScreenIconBackgroundColor v colors)) \<le> 1"
proof (cases "truthy v")
  case False
  then show ?thesis using colors_unset[OF False assms] by simp
next
  case True
  show ?thesis
  proof (cases "find_first (named ''color'' icon_background_name) (children colors)")
    case None
    from find_first_None[OF None] True None show ?thesis
      by (simp add: updateProjectSplashScreenIconBackgroundColor_def colors_named_def
          children_set_children)
  next
    case (Some i)
    from find_first_Some[OF Some]
    have P: "named ''color'' icon_background_name
            (set_text (escape_quotes (the v)) (children colors ! i))" by simp
    have "filter (named ''color'' icon_background_name)
            ((children colors)[i := set_text (escape_quotes (the v)) (children colors ! i)])
          = set_text (escape_quotes (the v)) (children colors ! i)
            # tl (filter (named ''color'' icon_background_name) (children colors))"
      using Some P by (rule filter_update_first)
    moreover have "updateProjectSplashScreenIconBackgroundColor v colors
        = set_children ((children colors)[i := set_text (escape_quotes (the v)) (children colors ! i)]) colors"
      using True Some by (simp add: updateProjectSplashScreenIconBackgroundColor_def Let_def)
    ultimately show ?thesis using assms
      by (simp add: colors_named_def children_set_children)
  qed
qed

lemma icon_background_unset:
  assumes "\<not> truthy v" "length (items_named key (style_items st)) \<le> 1"
  shows "items_named key (style_items (theme_icon_background_color locs key v st)) = [] \<and>
         colors_file (theme_icon_background_color locs key v st)
           = updateProjectSplashScreenIconBackgroundColor v (colors_file st)"
proof (cases "find_first (named ''item'' key) (style_items st)")
  case None
  from find_first_None[OF None] assms(1) None show ?thesis
    by (simp add: theme_icon_background_color_def Let_def emit_def items_named_def)
next
  case (Some i)
  from assms(2) have "tl (filter (named ''item'' key) (style_items st)) = []"
    by (cases "filter (named ''item'' key) (style_items st)") (simp_all add: items_named_def)
  with filter_remove_first[OF Some] assms(1) Some show ?thesis
    by (simp add: theme_icon_background_color_def Let_def emit_def items_named_def)
qed

lemma branding_colors:
  "colors_file (theme_branding_image key pk v st) = colors_file st"
  by (simp add: theme_branding_image_def Let_def emit_def)

lemma set_item_text_colors:
  "set_item_text key t st = (None, st') \<Longrightarrow> colors_file st' = colors_file st"
  by (auto simp: set_item_text_def split: option.splits)

lemma theme_key_step_colors:
  assumes "theme_key_step prefs locs key st = (None, st')" "key \<noteq> ''windowSplashScreenIconBackgroundColor''"
  shows "colors_file st' = colors_file st"
proof -
  consider "key = ''windowSplashScreenAnimatedIcon''" | "key = ''android:windowSplashScreenBrandingImage''"
    | "key = ''windowSplashScreenAnimationDuration''" | "key = ''postSplashScreenTheme''"
    | "key \<notin> set theme_keys"
    using assms(2) by (auto simp: theme_keys_def)
  then show ?thesis
  proof cases
    case 1 with assms(1) show ?thesis by (auto simp: theme_key_step_def Let_def)
  next
    case 2 with assms(1) show ?thesis by (auto simp: theme_key_step_def Let_def branding_colors)
  next
    case 3 with assms(1) show ?thesis
      by (simp add: theme_key_step_def Let_def) (erule set_item_text_colors)
  next
    case 4 with assms(1) show ?thesis
      by (simp add: theme_key_step_def Let_def) (erule set_item_text_colors)
  next
    case 5 with assms(1) show ?thesis by (auto simp: theme_key_step_def Let_def theme_keys_def emit_def)
  qed
qed

lemma fold_key_steps_colors:
  assumes "fold (\<lambda>k r. and_then r (theme_key_step prefs locs k)) ks r0 = (None, st')"
    and "''windowSplashScreenIconBackgroundColor'' \<notin> set ks"
  shows "\<exists>st. r0 = (None, st) \<and> colors_file st' = colors_file st"
  using assms
proof (induction ks arbitrary: r0)
  case Nil
  then show ?case by simp
next
  case (Cons k ks)
  from Cons.prems have "fold (\<lambda>k r. and_then r (theme_key_step prefs locs k)) ks
      (and_then r0 (theme_key_step prefs locs k)) = (None, st')"
    and nk: "k \<noteq> ''windowSplashScreenIconBackgroundColor''"
    and "''windowSplashScreenIconBackgroundColor'' \<notin> set ks"
    by auto
  from Cons.IH[OF this(1) this(3)] obtain st1 where
    st1: "and_then r0 (theme_key_step prefs locs k) = (None, st1)"
    and eq: "colors_file st' = colors_file st1" by blast
  from st1 obtain s where s: "r0 = (None, s)" "theme_key_step prefs locs k s = (None, st1)"
    by (rule and_then_None)
  from theme_key_step_colors[OF s(2) nk] eq s(1) show ?case by simp
qed

lemma edge_to_edge_other:
  assumes "theme_edge_to_edge prefs st = (None, st')"
  shows "(K \<noteq> optOutE2EKey \<longrightarrow> items_named K (style_items st') = items_named K (style_items st)) \<and>
         colors_file st' = colors_file st"
proof -
  obtain h evs where he: "resolve_e2e (prefs ''AndroidEdgeToEdge'') = (h, evs)"
    by (cases "resolve_e2e (prefs ''AndroidEdgeToEdge'')")
  from assms he obtain s where
    s: "set_item_text optOutE2EKey (if \<not> h then ''true'' else ''false'')
          (st\<lparr>theme_events := theme_events st @ evs\<rparr>) = (None, s)"
    and st': "style_items st' = style_items s" "colors_file st' = colors_file s"
    by (auto simp: theme_edge_to_edge_def Let_def emit_def elim!: and_then_None)
  from set_item_text_other[OF s, of K] set_item_text_colors[OF s] st' show ?thesis by auto
qed

lemma splash_background_colors:
  "theme_splash_background prefs st = (None, st') \<Longrightarrow> colors_file st' = colors_file st"
  by (auto simp: theme_splash_background_def Let_def emit_def dest!: set_item_text_colors)

lemma splash_items_Some:
  "find_first (named ''style'' ''Theme.App.SplashScreen'') (children themes) = Some si \<Longrightarrow>
   splash_items themes = children (children themes ! si)"
  by (simp add: splash_items_def)

lemma theme_keys_split:
  "theme_keys = [''windowSplashScreenAnimatedIcon'', ''windowSplashScreenAnimationDuration'',
      ''android:windowSplashScreenBrandingImage'']
     @ [''windowSplashScreenIconBackgroundColor'', ''postSplashScreenTheme'']"
  by (simp add: theme_keys_def)

lemma icon_background_pref_key:
  "cdvConfigPrefKey ''windowSplashScreenIconBackgroundColor'' = ''AndroidWindowSplashScreenIconBackgroundColor''"
  by code_simp

lemma theme_icon_background_removed:
  assumes ok: "theme_outcome (updateProjectTheme prefs locs themes colors) = None"
    and unset: "\<not> truthy (prefs ''AndroidWindowSplashScreenIconBackgroundColor'')"
    and one: "length (items_named ''windowSplashScreenIconBackgroundColor'' (splash_items themes)) \<le> 1"
  shows "items_named ''windowSplashScreenIconBackgroundColor''
           (splash_items (the (themes_written (updateProjectTheme prefs locs themes colors)))) = [] \<and>
         colors_left (updateProjectTheme prefs locs themes colors)
           = updateProjectSplashScreenIconBackgroundColor
               (prefs ''AndroidWindowSplashScreenIconBackgroundColor'') colors"
proof -
  let ?I = "''windowSplashScreenIconBackgroundColor''"
  let ?f = "\<lambda>themeKey r. and_then r (theme_key_step prefs locs themeKey)"
  from ok obtain si st st1 where
    si: "find_first (named ''style'' ''Theme.App.SplashScreen'') (children themes) = Some si"
    and e2e: "theme_edge_to_edge prefs
       \<lparr>root_attrib = attrib themes, style_items = children (children themes ! si),
        colors_file = colors, theme_events = [], image_calls = []\<rparr> = (None, st1)"
    and f: "fold ?f theme_keys (theme_splash_background prefs st1) = (None, st)"
    and w: "splash_items (the (themes_written (updateProjectTheme prefs locs themes colors))) = style_items st"
    and c: "colors_left (updateProjectTheme prefs locs themes colors) = colors_file st"
    by (rule theme_run_success)
  from edge_to_edge_other[OF e2e, of ?I]
  have a1: "items_named ?I (style_items st1) = items_named ?I (splash_items themes)"
    "colors_file st1 = colors"
    by (simp_all add: optOutE2EKey_def splash_items_Some[OF si])
  let ?r3 = "fold ?f [''windowSplashScreenAnimatedIcon'', ''windowSplashScreenAnimationDuration'',
      ''android:windowSplashScreenBrandingImage''] (theme_splash_background prefs st1)"
  from f have "and_then (and_then ?r3 (theme_key_step prefs locs ?I))
                 (theme_key_step prefs locs ''postSplashScreenTheme'') = (None, st)"
    unfolding theme_keys_split fold_append by simp
  then obtain s4 where s4: "and_then ?r3 (theme_key_step prefs locs ?I) = (None, s4)"
    and p: "theme_key_step prefs locs ''postSplashScreenTheme'' s4 = (None, st)"
    by (rule and_then_None)
  from s4 obtain s3 where s3: "?r3 = (None, s3)"
    and i: "theme_key_step prefs locs ?I s3 = (None, s4)"
    by (rule and_then_None)
  from fold_key_steps_other[OF s3, of ?I] obtain s2 where
    bg: "theme_splash_background prefs st1 = (None, s2)"
    and b1: "items_named ?I (style_items s3) = items_named ?I (style_items s2)"
    by auto
  from fold_key_steps_colors[OF s3] bg have b2: "colors_file s3 = colors_file s2" by auto
  from splash_background_other[OF bg, of ?I] splash_background_colors[OF bg]
  have b3: "items_named ?I (style_items s2) = items_named ?I (style_items st1)"
    "colors_file s2 = colors_file st1" by simp_all
  have s3_items: "length (items_named ?I (style_items s3)) \<le> 1"
    and s3_colors: "colors_file s3 = colors"
    using one by (simp_all add: b1 b2 b3 a1)
  from i have s4_eq: "s4 = theme_icon_background_color locs ?I
      (prefs ''AndroidWindowSplashScreenIconBackgroundColor'') s3"
    by (simp add: theme_key_step_def icon_background_pref_key)
  from icon_background_unset[OF unset s3_items, of locs]
  have s4_items: "items_named ?I (style_items s4) = []"
    and s4_colors: "colors_file s4 = updateProjectSplashScreenIconBackgroundColor
               (prefs ''AndroidWindowSplashScreenIconBackgroundColor'') colors"
    by (simp_all add: s4_eq s3_colors)
  from theme_key_step_other[OF p, of ?I] theme_key_step_colors[OF p]
  have "items_named ?I (style_items st) = items_named ?I (style_items s4)"
    "colors_file st = colors_file s4" by simp_all
  then show ?thesis by (simp add: w c s4_items s4_colors)
qed

text \<open>
  C8. For a colors document with at most one node named
  \<open>cdv_splashscreen_icon_background\<close>: with the preference unset the written document has
  no such node, also when the preference was set by the call before; and a run of
  \<open>updateProjectTheme\<close> with the preference unset leaves neither the item
  \<open>windowSplashScreenIconBackgroundColor\<close> in the splash screen style (when the style had
  at most one) nor the color node in the colors file.
\<close>

theorem icon_background_color_removed:
  assumes "\<not> truthy unset" and "length (colors_named icon_background_name colors) \<le> 1"
  shows "colors_named icon_background_name
           (updateProjectSplashScreenIconBackgroundColor unset colors) = [] \<and>
         colors_named icon_background_name
           (updateProjectSplashScreenIconBackgroundColor unset
              (updateProjectSplashScreenIconBackgroundColor color colors)) = [] \<and>
         (prefs ''AndroidWindowSplashScreenIconBackgroundColor'' = unset \<longrightarrow>
          theme_outcome (updateProjectTheme prefs locs themes colors) = None \<longrightarrow>
          length (items_named ''windowSplashScreenIconBackgroundColor'' (splash_items themes)) \<le> 1 \<longrightarrow>
            items_named ''windowSplashScreenIconBackgroundColor''
              (splash_items (the (themes_written (updateProjectTheme prefs locs themes colors)))) = [] \<and>
            colors_named icon_background_name
              (colors_left (updateProjectTheme prefs locs themes colors)) = [])"
proof (intro conjI impI)
  show "colors_named icon_background_name
           (updateProjectSplashScreenIconBackgroundColor unset colors) = []"
    using assms by (rule colors_unset)
  show "colors_named icon_background_name
           (updateProjectSplashScreenIconBackgroundColor unset
              (updateProjectSplashScreenIconBackgroundColor color colors)) = []"
    using assms(1) colors_at_most_one[OF assms(2)] by (rule colors_unset)
next
  assume p: "prefs ''AndroidWindowSplashScreenIconBackgroundColor'' = unset"
    and ok: "theme_outcome (updateProjectTheme prefs locs themes colors) = None"
    and one: "length (items_named ''windowSplashScreenIconBackgroundColor'' (splash_items themes)) \<le> 1"
  from assms(1) p have u: "\<not> truthy (prefs ''AndroidWindowSplashScreenIconBackgroundColor'')" by simp
  note r = theme_icon_background_removed[OF ok u one]
  from r show "items_named ''windowSplashScreenIconBackgroundColor''
              (splash_items (the (themes_written (updateProjectTheme prefs locs themes colors)))) = []"
    by simp
  from r have "colors_left (updateProjectTheme prefs locs themes colors)
           = updateProjectSplashScreenIconBackgroundColor unset colors" by (simp add: p)
  then show "colors_named icon_background_name
              (colors_left (updateProjectTheme prefs locs themes colors)) = []"
    using colors_unset[OF assms] by simp
qed

lemma sample_run_ok:
  "theme_outcome (updateProjectTheme (only_pref ''AndroidEdgeToEdge'' ''TRUE'') sample_locations sample_themes sample_colors) = None"
  by code_simp

lemma sample_colors_one: "length (colors_named icon_background_name sample_colors) \<le> 1"
  by code_simp

lemma sample_items_one:
  "length (items_named ''windowSplashScreenIconBackgroundColor'' (splash_items sample_themes)) \<le> 1"
  by code_simp

theorem icon_background_color_removed_witness:
  "colors_named icon_background_name sample_colors \<noteq> [] \<and>
   colors_named icon_background_name
     (updateProjectSplashScreenIconBackgroundColor None sample_colors) = [] \<and>
   colors_named icon_background_name
     (updateProjectSplashScreenIconBackgroundColor (Some ''#445566'') sample_colors) \<noteq> [] \<and>
   colors_named icon_background_name
     (updateProjectSplashScreenIconBackgroundColor None
        (updateProjectSplashScreenIconBackgroundColor (Some ''#445566'') sample_colors)) = [] \<and>
   items_named ''windowSplashScreenIconBackgroundColor'' (splash_items sample_themes) \<noteq> [] \<and>
   items_named ''windowSplashScreenIconBackgroundColor''
     (splash_items (the (themes_written
        (updateProjectTheme (only_pref ''AndroidEdgeToEdge'' ''TRUE'') sample_locations sample_themes sample_colors)))) = [] \<and>
   colors_named icon_background_name
     (colors_left (updateProjectTheme (only_pref ''AndroidEdgeToEdge'' ''TRUE'') sample_locations sample_themes sample_colors)) = []"
proof -
  have u: "\<not> truthy None" by (simp add: truthy_def)
  have p: "only_pref ''AndroidEdgeToEdge'' ''TRUE'' ''AndroidWindowSplashScreenIconBackgroundColor'' = None"
    by (simp add: only_pref_def)
  have a: "colors_named icon_background_name sample_colors \<noteq> []" by code_simp
  have b: "colors_named icon_background_name
     (updateProjectSplashScreenIconBackgroundColor (Some ''#445566'') sample_colors) \<noteq> []" by code_simp
  have c: "items_named ''windowSplashScreenIconBackgroundColor'' (splash_items sample_themes) \<noteq> []"
    by code_simp
  from icon_background_color_removed [OF u sample_colors_one,
      of "Some ''#445566''" "only_pref ''AndroidEdgeToEdge'' ''TRUE''" sample_locations sample_themes]
    p sample_run_ok sample_items_one a b c
  show ?thesis by simp
qed

theorem edge_to_edge_resolution_witness:
  \<open>fst (resolve_e2e (Some ''TRUE'')) = False \<and>
   snd (resolve_e2e (Some ''TRUE'')) =
      [(Verbose, ''Preference name "AndroidEdgeToEdge" has an invalid value. Valid values are "true" or "false". Defaulting to "false"'')] \<and>
   first_item_text optOutE2EKey
       (splash_items (the (themes_written
          (updateProjectTheme (only_pref ''AndroidEdgeToEdge'' ''TRUE'') sample_locations sample_themes sample_colors))))
     = Some (Some ''true'')\<close>
  using edge_to_edge_resolution [of "Some ''TRUE''" "only_pref ''AndroidEdgeToEdge'' ''TRUE''"
      sample_locations sample_themes sample_colors] sample_run_ok
  by (simp add: truthy_def only_pref_def)

section \<open>Properties of the validation in updateIcons\<close>

lemma validate_icon_fields:
  "errorMissingAttributes (validate_icon icon v) =
     errorMissingAttributes v @ (if missing_attributes icon then [icon_ident icon] else [])"
  "errorLegacyIconNeeded (validate_icon icon v) =
     errorLegacyIconNeeded v @ (if legacy_icon_needed icon then [icon_ident icon] else [])"
  "hasAdaptive (validate_icon icon v) = (hasAdaptive v \<or> truthy (foreground icon))"
  "checked_icons (validate_icon icon v) = checked_icons v @ [derive_src icon]"
  by (auto simp: validate_icon_def missing_attributes_def legacy_icon_needed_def Let_def
      derive_src_def raster_foreground_def)

lemma fold_validate_icon:
  "errorMissingAttributes (fold validate_icon icons v) =
     errorMissingAttributes v @ map icon_ident (filter missing_attributes icons) \<and>
   errorLegacyIconNeeded (fold validate_icon icons v) =
     errorLegacyIconNeeded v @ map icon_ident (filter legacy_icon_needed icons) \<and>
   hasAdaptive (fold validate_icon icons v) = (hasAdaptive v \<or> list_ex (\<lambda>i. truthy (foreground i)) icons) \<and>
   checked_icons (fold validate_icon icons v) = checked_icons v @ map derive_src icons"
  by (induction icons arbitrary: v) (simp_all add: validate_icon_fields)

lemma validate_icons_result:
  "errorMissingAttributes (validate_icons icons) = map icon_ident (filter missing_attributes icons)"
  "errorLegacyIconNeeded (validate_icons icons) = map icon_ident (filter legacy_icon_needed icons)"
  "hasAdaptive (validate_icons icons) = list_ex (\<lambda>i. truthy (foreground i)) icons"
  "checked_icons (validate_icons icons) = map derive_src icons"
  by (simp_all add: validate_icons_def fold_validate_icon)

lemma filter_empty_list_ex: "(filter P xs = []) = (\<not> list_ex P xs)"
  by (induction xs) auto

lemma errorMessage_validate:
  "errorMessage (validate_icons icons) =
     (if list_ex missing_attributes icons
         then [missing_attributes_message (map icon_ident (filter missing_attributes icons))] else [])
        @ (if list_ex legacy_icon_needed icons
           then [legacy_icon_needed_message (map icon_ident (filter legacy_icon_needed icons))] else [])"
  by (simp add: errorMessage_def validate_icons_result filter_empty_list_ex)

text \<open>
  C4. When some declaration has exactly one of background and foreground, or neither of
  them and no src, or a foreground that is a colour reference or an \<open>.xml\<close> vector
  without src, \<open>updateIcons\<close> throws one \<open>CordovaError\<close> whose message lists, per error
  class, the identifiers of all offending declarations; nothing is emitted, no file is
  written and no resource map reaches \<open>FileUpdater.updatePaths\<close>.
\<close>

theorem updateIcons_validation_error:
  assumes "list_ex (\<lambda>icon. missing_attributes icon \<or> legacy_icon_needed icon) icons"
  shows "updateIcons icons platformResourcesDir folders =
           \<lparr>outcome = Some (CordovaError (validation_message icons)),
            run_events = [], run_written = [], synced = None\<rparr>"
proof -
  from assms have ne: "icons \<noteq> []" by auto
  from assms have "list_ex missing_attributes icons \<or> list_ex legacy_icon_needed icons"
    by (auto simp: list_ex_iff)
  then have "errorMessage (validate_icons icons) \<noteq> []"
    by (auto simp: errorMessage_validate)
  with ne show ?thesis
    by (simp add: updateIcons_def Let_def validation_message_def errorMessage_validate)
qed

text \<open>
  C7 (as amended). A declaration whose foreground is an image file, whose src is unset
  and whose background is set belongs to neither error class, passes validation on its
  own, and leaves the validation loop with its src equal to its foreground.
\<close>

theorem derived_src_for_raster_foreground:
  assumes "raster_foreground icon" "\<not> truthy (src icon)" "truthy (background icon)"
    and "k < length icons" "icons ! k = icon"
  shows "\<not> missing_attributes icon \<and> \<not> legacy_icon_needed icon \<and>
         errorMessage (validate_icons [icon]) = [] \<and>
         checked_icons (validate_icons icons) ! k = icon\<lparr>src := foreground icon\<rparr>"
proof -
  from assms(1,3) have m: "\<not> missing_attributes icon"
    by (simp add: raster_foreground_def missing_attributes_def)
  from assms(1) have l: "\<not> legacy_icon_needed icon"
    by (auto simp: raster_foreground_def legacy_icon_needed_def)
  from m l have "errorMessage (validate_icons [icon]) = []"
    by (simp add: errorMessage_validate)
  moreover from assms have "checked_icons (validate_icons icons) ! k = icon\<lparr>src := foreground icon\<rparr>"
    by (simp add: validate_icons_result derive_src_def)
  ultimately show ?thesis using m l by simp
qed

theorem updateIcons_validation_error_witness:
  "updateIcons
     [foreground_only_icon ''mdpi'' ''res/fg.png'', sized_icon 72,
      adaptive_icon (Some ''hdpi'') ''@color/bg'' ''@color/fg'',
      adaptive_icon None ''res/bg.png'' ''res/fg.xml'',
      generic_icon ''ldpi'' ''res/icon.png'']
     ''platforms/android/app/src/main/res'' [''mipmap-mdpi'']
   = \<lparr>outcome = Some (CordovaError
        ''One of the following attributes are set but missing the other for the density type: mdpi, size=72. Please ensure that all require attributes are defined. For the following icons with the density of: hdpi, size=undefined, adaptive foreground with a defined color or vector can not be used as a standard fallback icon for older Android devices. To support older Android environments, please provide a value for the src attribute.''),
      run_events = [], run_written = [], synced = None\<rparr>"
proof -
  have h: "list_ex (\<lambda>icon. missing_attributes icon \<or> legacy_icon_needed icon)
     [foreground_only_icon ''mdpi'' ''res/fg.png'', sized_icon 72,
      adaptive_icon (Some ''hdpi'') ''@color/bg'' ''@color/fg'',
      adaptive_icon None ''res/bg.png'' ''res/fg.xml'',
      generic_icon ''ldpi'' ''res/icon.png'']"
    by code_simp
  have m: "validation_message
     [foreground_only_icon ''mdpi'' ''res/fg.png'', sized_icon 72,
      adaptive_icon (Some ''hdpi'') ''@color/bg'' ''@color/fg'',
      adaptive_icon None ''res/bg.png'' ''res/fg.xml'',
      generic_icon ''ldpi'' ''res/icon.png'']
    = ''One of the following attributes are set but missing the other for the density type: mdpi, size=72. Please ensure that all require attributes are defined. For the following icons with the density of: hdpi, size=undefined, adaptive foreground with a defined color or vector can not be used as a standard fallback icon for older Android devices. To support older Android environments, please provide a value for the src attribute.''"
    by code_simp
  show ?thesis
    using updateIcons_validation_error [OF h, of "''platforms/android/app/src/main/res''" "[''mipmap-mdpi'']"]
    unfolding m .
qed

text \<open>
  C7 as stated fails: a declaration with an image foreground and no src, but without a
  background, is rejected by validation.
\<close>

theorem raster_foreground_without_background_rejected:
  "raster_foreground (foreground_only_icon ''mdpi'' ''res/fg.png'') \<and>
   \<not> truthy (src (foreground_only_icon ''mdpi'' ''res/fg.png'')) \<and>
   outcome (updateIcons [foreground_only_icon ''mdpi'' ''res/fg.png''] ''res'' [''mipmap-mdpi''])
     = Some (CordovaError
        ''One of the following attributes are set but missing the other for the density type: mdpi. Please ensure that all require attributes are defined.'')"
  by code_simp

theorem derived_src_for_raster_foreground_witness:
  "errorMessage (validate_icons [adaptive_icon (Some ''mdpi'') ''res/bg.png'' ''res/fg.png'']) = [] \<and>
   src (checked_icons (validate_icons
          [generic_icon ''ldpi'' ''res/icon.png'', adaptive_icon (Some ''mdpi'') ''res/bg.png'' ''res/fg.png'']) ! 1)
     = Some ''res/fg.png''"
proof -
  have a: "raster_foreground (adaptive_icon (Some ''mdpi'') ''res/bg.png'' ''res/fg.png'')" by code_simp
  have b: "\<not> truthy (src (adaptive_icon (Some ''mdpi'') ''res/bg.png'' ''res/fg.png''))" by code_simp
  have c: "truthy (background (adaptive_icon (Some ''mdpi'') ''res/bg.png'' ''res/fg.png''))" by code_simp
  from derived_src_for_raster_foreground [OF a b c,
      of 1 "[generic_icon ''ldpi'' ''res/icon.png'', adaptive_icon (Some ''mdpi'') ''res/bg.png'' ''res/fg.png'']"]
  show ?thesis by (simp add: adaptive_icon_def)
qed

text \<open>
  C3 does not hold of the code. A single adaptive declaration without density and size
  passes validation and becomes the default icon, no density is resolved, and the block
  after the loop of \<open>updateIconResourceForAdaptive\<close> calls \<open>startsWith\<close> on the variable
  \<open>background\<close> that no iteration has assigned.
\<close>

theorem adaptive_default_only_throws:
  "errorMessage (validate_icons [adaptive_icon None ''res/bg.png'' ''res/fg.png'']) = [] \<and>
   hasAdaptive (validate_icons [adaptive_icon None ''res/bg.png'' ''res/fg.png'']) \<and>
   android_icons (prepareIcons (checked_icons (validate_icons [adaptive_icon None ''res/bg.png'' ''res/fg.png'']))) = [] \<and>
   default_icon (prepareIcons (checked_icons (validate_icons [adaptive_icon None ''res/bg.png'' ''res/fg.png''])))
     = Some ((adaptive_icon None ''res/bg.png'' ''res/fg.png'')\<lparr>src := Some ''res/fg.png''\<rparr>) \<and>
   updateIcons [adaptive_icon None ''res/bg.png'' ''res/fg.png''] ''platforms/android/app/src/main/res''
       [''mipmap-mdpi'', ''mipmap-mdpi-v26'']
     = \<lparr>outcome = Some (TypeError ''Cannot read properties of undefined (reading startsWith)''),
        run_events = [], run_written = [], synced = None\<rparr>"
  by code_simp

section \<open>Properties of the adaptive and legacy passes\<close>

lemma loop_background_vars:
  "var_background (fst (loop_background dir d b st)) = var_background st \<and>
   var_foreground (fst (loop_background dir d b st)) = var_foreground st \<and>
   var_monochrome (fst (loop_background dir d b st)) = var_monochrome st \<and>
   written (fst (loop_background dir d b st)) = written st \<and>
   events (fst (loop_background dir d b st)) = events st"
  by (simp add: loop_background_def Let_def)

lemma loop_foreground_vars:
  "var_background (fst (loop_foreground dir d b st)) = var_background st \<and>
   var_foreground (fst (loop_foreground dir d b st)) = var_foreground st \<and>
   var_monochrome (fst (loop_foreground dir d b st)) = var_monochrome st \<and>
   written (fst (loop_foreground dir d b st)) = written st \<and>
   events (fst (loop_foreground dir d b st)) = events st"
  by (simp add: loop_foreground_def Let_def)

lemma loop_monochrome_vars:
  "var_background (loop_monochrome dir d b st) = var_background st \<and>
   var_foreground (loop_monochrome dir d b st) = var_foreground st \<and>
   var_monochrome (loop_monochrome dir d b st) = var_monochrome st \<and>
   written (loop_monochrome dir d b st) = written st \<and>
   events (loop_monochrome dir d b st) = events st"
  by (simp add: loop_monochrome_def Let_def)






lemma split_not_Nil: "split c s \<noteq> []"
  by (induction s) (auto split: list.splits)

lemma split_append: "split c (xs @ c # ys) = split c xs @ split c ys"
proof (induction xs)
  case Nil
  then show ?case by simp
next
  case (Cons x xs)
  then show ?case using split_not_Nil[of c xs]
    by (cases "split c xs") auto
qed

lemma split_slash_free: "list_all (\<lambda>x. c \<notin> set x) (split c s)"
  by (induction s) (auto split: list.splits)

lemma normalize_segments_append:
  "normalize_segments f (xs @ ys) acc = normalize_segments f ys (normalize_segments f xs acc)"
  by (induction xs arbitrary: acc) auto

lemma normalize_segments_slash_free:
  "list_all (\<lambda>x. CHR ''/'' \<notin> set x) xs \<Longrightarrow> list_all (\<lambda>x. CHR ''/'' \<notin> set x) acc \<Longrightarrow>
   list_all (\<lambda>x. CHR ''/'' \<notin> set x) (normalize_segments f xs acc)"
proof (induction xs arbitrary: acc)
  case Nil
  then show ?case by simp
next
  case (Cons x xs)
  have "list_all (\<lambda>x. CHR ''/'' \<notin> set x) (butlast acc)"
    using Cons.prems(2) by (auto simp: list_all_iff dest: in_set_butlastD)
  with Cons show ?case by auto
qed

lemma normalize_segments_plain:
  "plain_segment b \<Longrightarrow> plain_segment n \<Longrightarrow> normalize_segments f [b, n] acc = acc @ [b, n]"
  by (simp add: plain_segment_def)

lemma join_last_nonempty: "n \<noteq> [] \<Longrightarrow> join sep (xs @ [n]) \<noteq> []"
  by (induction xs) (auto simp: join_Cons)

lemma join_last: "n \<noteq> [] \<Longrightarrow> last (join sep (xs @ [n])) = last n"
  by (induction xs) (auto simp: join_Cons join_last_nonempty)

lemma path_join_plain:
  assumes b: "plain_segment b" and n: "plain_segment n"
  shows "path_join [dir, b, n] = dir_root dir @ join ''/'' (dir_segments dir @ [b, n])"
proof -
  from b n have ne: "b \<noteq> []" "n \<noteq> []"
    and sb: "CHR ''/'' \<notin> set b" and sn: "CHR ''/'' \<notin> set n"
    by (auto simp: plain_segment_def)
  have hb: "hd b \<noteq> CHR ''/''" using ne(1) sb by (cases b) auto
  have ln: "last n \<noteq> CHR ''/''" using ne(2) sn by (cases n rule: rev_cases) auto
  show ?thesis
  proof (cases "dir = []")
    case True
    have j: "b @ ''/'' @ n = join ''/'' ([] @ [b, n])" by simp
    have "split CHR ''/'' (b @ ''/'' @ n) = [b, n]"
      using split_append[of "CHR ''/''" b n] sb sn by (simp add: split_no_sep)
    then show ?thesis using True ne hb ln b n
      by (simp add: path_join_def normalize_def Let_def dir_root_def dir_segments_def
          plain_segment_def)
  next
    case False
    let ?p = "dir @ CHR ''/'' # b @ CHR ''/'' # n"
    have sp: "split CHR ''/'' ?p = split CHR ''/'' dir @ [b, n]"
      using split_append[of "CHR ''/''" dir "b @ CHR ''/'' # n"] split_append[of "CHR ''/''" b n] sb sn
      by (simp add: split_no_sep)
    have hd: "hd ?p = hd dir" using False by simp
    have last: "last ?p = last n" using ne by simp
    have res: "normalize_segments (hd dir \<noteq> CHR ''/'') (split CHR ''/'' ?p) []
        = dir_segments dir @ [b, n]"
      by (simp only: sp normalize_segments_append normalize_segments_plain[OF b n]
          dir_segments_def False if_False)
    have "join ''/'' (dir_segments dir @ [b, n]) \<noteq> []"
      using join_last_nonempty[of n "''/''" "dir_segments dir @ [b]"] ne by simp
    then show ?thesis using False ne ln
      unfolding path_join_def normalize_def Let_def
      by (simp add: hd res dir_root_def)
  qed
qed

lemma dir_segments_slash_free: "list_all (\<lambda>x. CHR ''/'' \<notin> set x) (dir_segments dir)"
  by (simp add: dir_segments_def normalize_segments_slash_free split_slash_free)

lemma path_join_inj:
  assumes "plain_segment b" "plain_segment n" "plain_segment b'" "plain_segment n'"
    and eq: "path_join [dir, b, n] = path_join [dir, b', n']"
  shows "b = b' \<and> n = n'"
proof -
  from eq have "join ''/'' (dir_segments dir @ [b, n]) = join ''/'' (dir_segments dir @ [b', n'])"
    by (simp add: path_join_plain assms(1-4))
  then have "split CHR ''/'' (join ''/'' (dir_segments dir @ [b, n]))
      = split CHR ''/'' (join ''/'' (dir_segments dir @ [b', n']))" by (rule arg_cong)
  moreover have "split CHR ''/'' (join ''/'' (dir_segments dir @ [b, n])) = dir_segments dir @ [b, n]"
    using assms(1,2) dir_segments_slash_free[of dir]
    by (intro split_join) (auto simp: plain_segment_def)
  moreover have "split CHR ''/'' (join ''/'' (dir_segments dir @ [b', n'])) = dir_segments dir @ [b', n']"
    using assms(3,4) dir_segments_slash_free[of dir]
    by (intro split_join) (auto simp: plain_segment_def)
  ultimately show ?thesis by simp
qed

lemma basename_slash_free: "CHR ''/'' \<notin> set (basename p)"
  by (auto simp: basename_def dest: set_takeWhileD)

lemma extname_slash_free: "CHR ''/'' \<notin> set (extname p)"
proof -
  have "set (takeWhile (\<lambda>c. c \<noteq> CHR ''.'') (rev (basename p))) \<subseteq> set (basename p)"
    by (auto dest: set_takeWhileD)
  with basename_slash_free[of p] show ?thesis
    by (auto simp: extname_def Let_def)
qed

lemma lower_char_slash: "lower_char c = CHR ''/'' \<Longrightarrow> c = CHR ''/''"
proof -
  assume a: "lower_char c = CHR ''/''"
  show ?thesis
  proof (cases "65 \<le> (of_char c :: nat) \<and> (of_char c :: nat) \<le> 90")
    case True
    with a have "char_of ((of_char c :: nat) + 32) = CHR ''/''" by (simp add: lower_char_def Let_def)
    then have "(of_char (char_of ((of_char c :: nat) + 32)) :: nat) = of_char CHR ''/''" by simp
    with True show ?thesis by simp
  next
    case False
    with a show ?thesis by (simp add: lower_char_def Let_def)
  qed
qed

lemma toLowerCase_slash_free: "CHR ''/'' \<notin> set s \<Longrightarrow> CHR ''/'' \<notin> set (toLowerCase s)"
proof
  assume a: "CHR ''/'' \<notin> set s" and "CHR ''/'' \<in> set (toLowerCase s)"
  then obtain x where "x \<in> set s" "lower_char x = CHR ''/''" by (auto simp: toLowerCase_def)
  with lower_char_slash[of x] a show False by simp
qed

lemma mipmap_v26_plain: "CHR ''/'' \<notin> set d \<Longrightarrow> plain_segment (''mipmap-'' @ d @ ''-v26'')"
  by (simp add: plain_segment_def)

lemma mipmap_plain: "CHR ''/'' \<notin> set d \<Longrightarrow> plain_segment (''mipmap-'' @ d)"
  by (simp add: plain_segment_def)

lemma adaptive_name_plain:
  assumes "name \<in> set adaptive_names"
  shows "plain_segment (if endsWith sourceName ''.9.png'' then png_to_nine_patch name else name) \<and>
         (if endsWith sourceName ''.9.png'' then png_to_nine_patch name else name) \<noteq> ''ic_launcher.xml''"
  using assms by (auto simp: adaptive_names_def plain_segment_def png_to_nine_patch_def endsWith_def)

lemma adaptive_target_ne_launcher:
  assumes "CHR ''/'' \<notin> set d" "CHR ''/'' \<notin> set d'" "d' \<noteq> []" "name \<in> set adaptive_names"
  shows "getAdaptiveImageResourcePath dir ''mipmap'' d' name sourceName \<noteq> launcherXmlPath dir d"
proof
  let ?n = "if endsWith sourceName ''.9.png'' then png_to_nine_patch name else name"
  assume "getAdaptiveImageResourcePath dir ''mipmap'' d' name sourceName = launcherXmlPath dir d"
  then have "path_join [dir, ''mipmap-'' @ d' @ ''-v26'', ?n]
      = path_join [dir, ''mipmap-'' @ d @ ''-v26'', ''ic_launcher.xml'']"
    using assms(3) by (simp add: getAdaptiveImageResourcePath_def launcherXmlPath_def Let_def)
  from path_join_inj[OF mipmap_v26_plain[OF assms(2)] _ mipmap_v26_plain[OF assms(1)] _ this]
    adaptive_name_plain[OF assms(4), of sourceName]
  show False by (simp add: plain_segment_def)
qed

lemma legacy_target_eq_launcher:
  assumes "CHR ''/'' \<notin> set d" "CHR ''/'' \<notin> set d'" "d' \<noteq> []"
    and eq: "getImageResourcePath dir ''mipmap'' d' ''ic_launcher'' sourceName = launcherXmlPath dir d"
  shows "d' = d @ ''-v26''"
proof -
  let ?ext = "if endsWith sourceName ''.9.png'' then ''.9.png'' else toLowerCase (extname sourceName)"
  have "CHR ''/'' \<notin> set ?ext"
    using toLowerCase_slash_free[OF extname_slash_free[of sourceName]] by simp
  then have pn: "plain_segment (''ic_launcher'' @ ?ext)" by (simp add: plain_segment_def)
  from eq have "path_join [dir, ''mipmap-'' @ d', ''ic_launcher'' @ ?ext]
      = path_join [dir, ''mipmap-'' @ d @ ''-v26'', ''ic_launcher.xml'']"
    using assms(3) by (simp add: getImageResourcePath_def launcherXmlPath_def Let_def)
  from path_join_inj[OF mipmap_plain[OF assms(2)] pn mipmap_v26_plain[OF assms(1)] _ this]
  show ?thesis by (simp add: plain_segment_def)
qed

lemma adaptive_write_refl: "adaptive_write dir d m m"
  by (simp add: adaptive_write_def)

lemma adaptive_writeI:
  "name \<in> set adaptive_names \<Longrightarrow>
   adaptive_write dir d m (AList.update (getAdaptiveImageResourcePath dir ''mipmap'' d name sourceName) (Some v) m)"
  by (auto simp: adaptive_write_def)

lemma loop_background_write:
  "adaptive_write dir d (resourceMap st) (resourceMap (fst (loop_background dir d b st)))"
  by (simp add: loop_background_def Let_def adaptive_write_refl adaptive_writeI adaptive_names_def)

lemma loop_foreground_write:
  "adaptive_write dir d (resourceMap st) (resourceMap (fst (loop_foreground dir d b st)))"
  by (simp add: loop_foreground_def Let_def adaptive_write_refl adaptive_writeI adaptive_names_def)

lemma loop_monochrome_write:
  "adaptive_write dir d (resourceMap st) (resourceMap (loop_monochrome dir d b st))"
  by (simp add: loop_monochrome_def Let_def adaptive_write_refl adaptive_writeI adaptive_names_def)

lemma adaptive_write_kept:
  "adaptive_write dir d m m' \<Longrightarrow> map_of m p \<noteq> Some None \<Longrightarrow> map_of m' p \<noteq> Some None"
  by (auto simp: adaptive_write_def update_conv' split: if_splits)

lemma adaptive_write_absent:
  assumes "adaptive_write dir d' m m'" "CHR ''/'' \<notin> set d" "CHR ''/'' \<notin> set d'" "d' \<noteq> []"
    and "map_of m (launcherXmlPath dir d) = None"
  shows "map_of m' (launcherXmlPath dir d) = None"
proof -
  from assms(1) consider "m' = m"
    | name sourceName v where "name \<in> set adaptive_names"
        "m' = AList.update (getAdaptiveImageResourcePath dir ''mipmap'' d' name sourceName) (Some v) m"
    by (auto simp: adaptive_write_def)
  then show ?thesis
  proof cases
    case 1
    with assms(5) show ?thesis by simp
  next
    case 2
    from adaptive_target_ne_launcher[OF assms(2,3,4) 2(1), of dir sourceName]
    have "launcherXmlPath dir d \<noteq> getAdaptiveImageResourcePath dir ''mipmap'' d' name sourceName"
      by (rule not_sym)
    with assms(5) show ?thesis by (simp add: 2(2) update_conv')
  qed
qed

lemma adaptive_writes_kept:
  "(adaptive_write dir d)\<^sup>*\<^sup>* m m' \<Longrightarrow> map_of m p \<noteq> Some None \<Longrightarrow> map_of m' p \<noteq> Some None"
  by (induction rule: rtranclp_induct) (auto dest: adaptive_write_kept)

lemma adaptive_writes_absent:
  assumes "(adaptive_write dir d')\<^sup>*\<^sup>* m m'" "CHR ''/'' \<notin> set d" "CHR ''/'' \<notin> set d'" "d' \<noteq> []"
    and "map_of m (launcherXmlPath dir d) = None"
  shows "map_of m' (launcherXmlPath dir d) = None"
  using assms(1,5)
  by (induction rule: rtranclp_induct) (auto intro: adaptive_write_absent[OF _ assms(2,3,4)])

lemma adaptive_iteration_effect:
  "\<exists>m'. (adaptive_write dir (fst e))\<^sup>*\<^sup>* (resourceMap st) m' \<and>
     (if is_adaptive (snd e)
      then resourceMap (adaptive_iteration dir e st) = AList.delete (launcherXmlPath dir (fst e)) m' \<and>
           map fst (written (adaptive_iteration dir e st)) = map fst (written st) @ [launcherXmlPath dir (fst e)]
      else resourceMap (adaptive_iteration dir e st) = resourceMap st \<and>
           written (adaptive_iteration dir e st) = written st)"
proof (cases "is_adaptive (snd e)")
  case False
  then show ?thesis
    by (auto simp: adaptive_iteration_def is_adaptive_def Let_def)
next
  case True
  define st2 where "st2 = (st\<lparr>var_background := background (snd e), var_foreground := foreground (snd e),
                   var_monochrome := monochrome (snd e)\<rparr>)"
  define st3 where "st3 = fst (loop_background dir (fst e) (the (background (snd e))) st2)"
  define st4 where "st4 = fst (loop_foreground dir (fst e) (the (foreground (snd e))) st3)"
  define st5 where "st5 = (if truthy (monochrome (snd e))
                       then loop_monochrome dir (fst e) (the (monochrome (snd e))) st4
                       else st4)"
  have r: "resourceMap (adaptive_iteration dir e st) = AList.delete (launcherXmlPath dir (fst e)) (resourceMap st5)"
    and w: "map fst (written (adaptive_iteration dir e st)) = map fst (written st) @ [launcherXmlPath dir (fst e)]"
    using True
    by (simp_all add: adaptive_iteration_def is_adaptive_def Let_def split_beta st2_def st3_def
        st4_def st5_def loop_background_vars loop_foreground_vars loop_monochrome_vars)
  have "adaptive_write dir (fst e) (resourceMap st) (resourceMap st3)"
    using loop_background_write[of dir "fst e" st2] by (simp add: st3_def st2_def)
  moreover have "adaptive_write dir (fst e) (resourceMap st3) (resourceMap st4)"
    unfolding st4_def by (rule loop_foreground_write)
  moreover have "adaptive_write dir (fst e) (resourceMap st4) (resourceMap st5)"
    unfolding st5_def by (simp add: loop_monochrome_write adaptive_write_refl)
  ultimately have "(adaptive_write dir (fst e))\<^sup>*\<^sup>* (resourceMap st) (resourceMap st5)"
    by (meson rtranclp.rtrancl_into_rtrancl rtranclp.rtrancl_refl)
  with r w True show ?thesis by auto
qed

lemma iteration_kept:
  assumes "descriptors_kept (resourceMap st) (map fst (written st))"
  shows "descriptors_kept (resourceMap (adaptive_iteration dir e st))
           (map fst (written (adaptive_iteration dir e st)))"
proof -
  from adaptive_iteration_effect[of dir e st] obtain m' where
    w: "(adaptive_write dir (fst e))\<^sup>*\<^sup>* (resourceMap st) m'"
    and eff: "if is_adaptive (snd e)
      then resourceMap (adaptive_iteration dir e st) = AList.delete (launcherXmlPath dir (fst e)) m' \<and>
           map fst (written (adaptive_iteration dir e st)) = map fst (written st) @ [launcherXmlPath dir (fst e)]
      else resourceMap (adaptive_iteration dir e st) = resourceMap st \<and>
           written (adaptive_iteration dir e st) = written st"
    by blast
  show ?thesis
  proof (cases "is_adaptive (snd e)")
    case False
    with eff assms show ?thesis by simp
  next
    case True
    have "map_of (AList.delete (launcherXmlPath dir (fst e)) m') p \<noteq> Some None"
      if "map_of (resourceMap st) p \<noteq> Some None" for p
      using adaptive_writes_kept[OF w that] by (simp add: delete_conv')
    with True eff assms show ?thesis
      by (simp add: descriptors_kept_def list_all_iff delete_conv')
  qed
qed

lemma iteration_absent:
  assumes "descriptors_absent dir K (resourceMap st) (map fst (written st))"
    and "fst e \<in> K" "densities_ok K"
  shows "descriptors_absent dir K (resourceMap (adaptive_iteration dir e st))
           (map fst (written (adaptive_iteration dir e st)))"
proof -
  from adaptive_iteration_effect[of dir e st] obtain m' where
    w: "(adaptive_write dir (fst e))\<^sup>*\<^sup>* (resourceMap st) m'"
    and eff: "if is_adaptive (snd e)
      then resourceMap (adaptive_iteration dir e st) = AList.delete (launcherXmlPath dir (fst e)) m' \<and>
           map fst (written (adaptive_iteration dir e st)) = map fst (written st) @ [launcherXmlPath dir (fst e)]
      else resourceMap (adaptive_iteration dir e st) = resourceMap st \<and>
           written (adaptive_iteration dir e st) = written st"
    by blast
  show ?thesis
  proof (cases "is_adaptive (snd e)")
    case False
    with eff assms show ?thesis by simp
  next
    case True
    from assms(2,3) have e: "fst e \<noteq> []" "CHR ''/'' \<notin> set (fst e)" by (auto simp: densities_ok_def)
    have "map_of (AList.delete (launcherXmlPath dir (fst e)) m') p = None"
      if "map_of (resourceMap st) p = None" "p \<in> launcherXmlPath dir ` K" for p
    proof -
      from that(2) obtain d where d: "d \<in> K" "p = launcherXmlPath dir d" by auto
      with assms(3) have "CHR ''/'' \<notin> set d" by (auto simp: densities_ok_def)
      from adaptive_writes_absent[OF w this e(2,1)] that(1) d(2) show ?thesis
        by (simp add: delete_conv')
    qed
    with True eff assms(1,2) show ?thesis
      by (simp add: descriptors_absent_def list_all_iff delete_conv')
  qed
qed

lemma fold_iteration_kept:
  "descriptors_kept (resourceMap st) (map fst (written st)) \<Longrightarrow>
   descriptors_kept (resourceMap (fold (adaptive_iteration dir) entries st))
     (map fst (written (fold (adaptive_iteration dir) entries st)))"
  by (induction entries arbitrary: st) (simp_all add: iteration_kept)

lemma fold_iteration_absent:
  "descriptors_absent dir K (resourceMap st) (map fst (written st)) \<Longrightarrow>
   fst ` set entries \<subseteq> K \<Longrightarrow> densities_ok K \<Longrightarrow>
   descriptors_absent dir K (resourceMap (fold (adaptive_iteration dir) entries st))
     (map fst (written (fold (adaptive_iteration dir) entries st)))"
  by (induction entries arbitrary: st) (simp_all add: iteration_absent)

lemma default_background_effect:
  "default_background dir dflt st = Inr st' \<Longrightarrow>
   written st' = written st \<and> adaptive_write dir ''mdpi'' (resourceMap st) (resourceMap st')"
  by (auto simp: default_background_def adaptive_write_refl adaptive_names_def
      intro!: adaptive_writeI split: option.splits if_splits)

lemma default_foreground_effect:
  "default_foreground dir dflt st = Inr st' \<Longrightarrow>
   written st' = written st \<and> adaptive_write dir ''mdpi'' (resourceMap st) (resourceMap st')"
  by (auto simp: default_foreground_def adaptive_write_refl adaptive_names_def
      intro!: adaptive_writeI split: option.splits if_splits)

lemma default_monochrome_effect:
  "default_monochrome dir dflt st = Inr st' \<Longrightarrow>
   written st' = written st \<and> adaptive_write dir ''mdpi'' (resourceMap st) (resourceMap st')"
  by (auto simp: default_monochrome_def Let_def adaptive_write_refl adaptive_names_def
      intro!: adaptive_writeI split: option.splits if_splits)

lemma adaptive_default_effect:
  assumes "adaptive_default dir dflt st = (e, st')"
  shows "written st' = written st \<and> (adaptive_write dir ''mdpi'')\<^sup>*\<^sup>* (resourceMap st) (resourceMap st')"
proof (cases "default_background dir dflt st")
  case (Inl a)
  with assms show ?thesis by (simp add: adaptive_default_def)
next
  case (Inr st1)
  note b = default_background_effect[OF Inr]
  show ?thesis
  proof (cases "default_foreground dir dflt st1")
    case (Inl a)
    with assms Inr b show ?thesis by (auto simp: adaptive_default_def)
  next
    case f: (Inr st2)
    note f' = default_foreground_effect[OF f]
    show ?thesis
    proof (cases "default_monochrome dir dflt st2")
      case (Inl a)
      with assms Inr f have "st' = st2" by (simp add: adaptive_default_def)
      with b f' show ?thesis by (auto intro: rtranclp.rtrancl_into_rtrancl)
    next
      case m: (Inr st3)
      note m' = default_monochrome_effect[OF m]
      from assms Inr f m have "st' = st3" by (simp add: adaptive_default_def)
      with b f' m' show ?thesis
        by (auto intro: rtranclp.rtrancl_into_rtrancl)
    qed
  qed
qed

lemma for_in_set: "for_in obj = Some entries \<Longrightarrow> set entries = set obj"
  by (auto simp: for_in_def split: if_splits)

lemma adaptive_pass_kept:
  assumes "updateIconResourceForAdaptive p m dir evs = (e, st)"
  shows "descriptors_kept (resourceMap st) (map fst (written st))"
proof (cases "for_in (android_icons p)")
  case None
  with assms show ?thesis
    by (auto simp: updateIconResourceForAdaptive_def adaptive_start_def descriptors_kept_def)
next
  case (Some entries)
  let ?st = "fold (adaptive_iteration dir) entries (adaptive_start m evs)"
  have k: "descriptors_kept (resourceMap ?st) (map fst (written ?st))"
    by (rule fold_iteration_kept) (simp add: adaptive_start_def descriptors_kept_def)
  show ?thesis
  proof (cases "\<exists>dflt. default_icon p = Some dflt \<and> map_of (android_icons p) ''mdpi'' = None")
    case False
    with assms Some have "st = ?st"
      by (auto simp: updateIconResourceForAdaptive_def Let_def split: option.splits if_splits)
    with k show ?thesis by simp
  next
    case True
    then obtain dflt where "default_icon p = Some dflt" "map_of (android_icons p) ''mdpi'' = None"
      by blast
    with assms Some have "adaptive_default dir dflt ?st = (e, st)"
      by (simp add: updateIconResourceForAdaptive_def Let_def)
    from adaptive_default_effect[OF this] k show ?thesis
      by (auto simp: descriptors_kept_def list_all_iff dest: adaptive_writes_kept)
  qed
qed

lemma adaptive_pass_absent:
  assumes "updateIconResourceForAdaptive p m dir evs = (e, st)"
    and "densities_ok (fst ` set (android_icons p))"
  shows "descriptors_absent dir (fst ` set (android_icons p)) (resourceMap st) (map fst (written st))"
proof (cases "for_in (android_icons p)")
  case None
  with assms show ?thesis
    by (auto simp: updateIconResourceForAdaptive_def adaptive_start_def descriptors_absent_def)
next
  case (Some entries)
  let ?K = "fst ` set (android_icons p)"
  let ?st = "fold (adaptive_iteration dir) entries (adaptive_start m evs)"
  have k: "descriptors_absent dir ?K (resourceMap ?st) (map fst (written ?st))"
    by (rule fold_iteration_absent)
       (simp_all add: adaptive_start_def descriptors_absent_def for_in_set[OF Some] assms(2))
  show ?thesis
  proof (cases "\<exists>dflt. default_icon p = Some dflt \<and> map_of (android_icons p) ''mdpi'' = None")
    case False
    with assms Some have "st = ?st"
      by (auto simp: updateIconResourceForAdaptive_def Let_def split: option.splits if_splits)
    with k show ?thesis by simp
  next
    case True
    then obtain dflt where "default_icon p = Some dflt" "map_of (android_icons p) ''mdpi'' = None"
      by blast
    with assms Some have "adaptive_default dir dflt ?st = (e, st)"
      by (simp add: updateIconResourceForAdaptive_def Let_def)
    from adaptive_default_effect[OF this]
    have w: "written st = written ?st"
      and ws: "(adaptive_write dir ''mdpi'')\<^sup>*\<^sup>* (resourceMap ?st) (resourceMap st)" by auto
    have "map_of (resourceMap st) q = None"
      if "map_of (resourceMap ?st) q = None" "q \<in> launcherXmlPath dir ` ?K" for q
    proof -
      from that(2) obtain d where d: "d \<in> ?K" "q = launcherXmlPath dir d" by auto
      with assms(2) have "CHR ''/'' \<notin> set d" by (auto simp: densities_ok_def)
      from adaptive_writes_absent[OF ws this] that(1) d(2) show ?thesis by simp
    qed
    with k w show ?thesis by (simp add: descriptors_absent_def list_all_iff)
  qed
qed

lemma legacy_loop_writes:
  "legacy_loop dir entries m = (e, m') \<Longrightarrow> fst ` set entries \<subseteq> K \<Longrightarrow>
   (legacy_write dir K)\<^sup>*\<^sup>* m m'"
proof (induction entries arbitrary: m)
  case Nil
  then show ?case by simp
next
  case (Cons a entries)
  obtain d icon where a: "a = (d, icon)" by (cases a)
  show ?case
  proof (cases "src icon")
    case None
    with Cons.prems a show ?thesis by simp
  next
    case (Some s)
    let ?m1 = "AList.update (getImageResourcePath dir ''mipmap'' d ''ic_launcher'' (basename s)) (Some s) m"
    from Cons.prems a Some have "legacy_loop dir entries ?m1 = (e, m')" by simp
    from Cons.IH[OF this] Cons.prems(2) have "(legacy_write dir K)\<^sup>*\<^sup>* ?m1 m'" by simp
    moreover from Cons.prems(2) a have "legacy_write dir K m ?m1"
      by (auto simp: legacy_write_def)
    ultimately show ?thesis by (rule converse_rtranclp_into_rtranclp[rotated])
  qed
qed

lemma legacy_pass_writes:
  assumes "updateIconResourceForLegacy p m dir = (e, m')"
  shows "(legacy_write dir (insert ''mdpi'' (fst ` set (android_icons p))))\<^sup>*\<^sup>* m m'"
proof (cases "for_in (android_icons p)")
  case None
  with assms show ?thesis by (simp add: updateIconResourceForLegacy_def)
next
  case (Some entries)
  let ?K = "insert ''mdpi'' (fst ` set (android_icons p))"
  obtain e1 m1 where l: "legacy_loop dir entries m = (e1, m1)" by (cases "legacy_loop dir entries m")
  have w1: "(legacy_write dir ?K)\<^sup>*\<^sup>* m m1"
    by (rule legacy_loop_writes[OF l]) (auto simp: for_in_set[OF Some])
  from assms Some l consider "m' = m1"
    | s where "m' = AList.update (getImageResourcePath dir ''mipmap'' ''mdpi'' ''ic_launcher'' (basename s)) (Some s) m1"
    by (auto simp: updateIconResourceForLegacy_def split: option.splits if_splits)
  then show ?thesis
  proof cases
    case 1
    with w1 show ?thesis by simp
  next
    case 2
    then have "legacy_write dir ?K m1 m'" by (auto simp: legacy_write_def)
    with w1 show ?thesis by (rule rtranclp.rtrancl_into_rtrancl)
  qed
qed

lemma legacy_writes_kept:
  "(legacy_write dir K)\<^sup>*\<^sup>* m m' \<Longrightarrow> map_of m p \<noteq> Some None \<Longrightarrow> map_of m' p \<noteq> Some None"
  by (induction rule: rtranclp_induct) (auto simp: legacy_write_def update_conv' split: if_splits)

lemma v26_not_mdpi: "d @ ''-v26'' \<noteq> ''mdpi''"
proof
  assume "d @ ''-v26'' = ''mdpi''"
  then have "last (d @ ''-v26'') = last ''mdpi''" by (rule arg_cong)
  then show False by simp
qed

lemma legacy_write_absent:
  assumes "legacy_write dir (insert ''mdpi'' K) m m'" "densities_ok K" "d \<in> K"
    and "map_of m (launcherXmlPath dir d) = None"
  shows "map_of m' (launcherXmlPath dir d) = None"
proof -
  from assms(1) obtain d' sourceName v where d': "d' \<in> insert ''mdpi'' K"
    and m': "m' = AList.update (getImageResourcePath dir ''mipmap'' d' ''ic_launcher'' sourceName) (Some v) m"
    by (auto simp: legacy_write_def)
  from assms(2,3) have d: "CHR ''/'' \<notin> set d" "d @ ''-v26'' \<notin> K" by (auto simp: densities_ok_def)
  from d' assms(2) have s': "CHR ''/'' \<notin> set d'" "d' \<noteq> []" by (auto simp: densities_ok_def)
  from d' d(2) have "d' \<noteq> d @ ''-v26''" using v26_not_mdpi[of d] by auto
  with legacy_target_eq_launcher[OF d(1) s', of dir sourceName]
  have "launcherXmlPath dir d \<noteq> getImageResourcePath dir ''mipmap'' d' ''ic_launcher'' sourceName"
    by auto
  with assms(4) show ?thesis by (simp add: m' update_conv')
qed

lemma legacy_writes_absent:
  assumes "(legacy_write dir (insert ''mdpi'' K))\<^sup>*\<^sup>* m m'" "densities_ok K" "d \<in> K"
    and "map_of m (launcherXmlPath dir d) = None"
  shows "map_of m' (launcherXmlPath dir d) = None"
  using assms(1,4)
  by (induction rule: rtranclp_induct) (auto intro: legacy_write_absent[OF _ assms(2,3)])

lemma set_resolved_densities:
  "set (resolved_densities xs) = {d. \<exists>i\<in>set xs. resolved_density i = Some d}"
  by (induction xs) (auto simp: resolved_densities_def split: option.splits)

lemma resolved_density_derive_src: "resolved_density (derive_src i) = resolved_density i"
  by (simp add: derive_src_def resolved_density_def is_default_candidate_def icon_density_def
      icon_size_def)

lemma prepared_keys_resolved:
  assumes "d \<in> fst ` set (android_icons (prepareIcons xs))"
  shows "d \<in> set (resolved_densities xs)"
proof -
  from assms have "map_of (android_icons (prepareIcons xs)) d \<noteq> None"
    by (simp add: map_of_eq_None_iff)
  then have "filter (\<lambda>i. resolved_density i = Some d) xs \<noteq> []"
    by (auto simp: prepareIcons_def fold_prepare_android_icons map_of_fold_parseIcon
        filter_resolved_density Let_def split: option.splits)
  then obtain i where "i \<in> set xs" "resolved_density i = Some d"
    by (auto simp: filter_empty_conv)
  then show ?thesis by (auto simp: set_resolved_densities)
qed

lemma checked_keys_resolved:
  "fst ` set (android_icons (prepareIcons (checked_icons (validate_icons icons))))
     \<subseteq> set (resolved_densities icons)"
proof
  fix d assume "d \<in> fst ` set (android_icons (prepareIcons (checked_icons (validate_icons icons))))"
  then have "d \<in> set (resolved_densities (map derive_src icons))"
    unfolding validate_icons_result by (rule prepared_keys_resolved)
  then show "d \<in> set (resolved_densities icons)"
    by (auto simp: set_resolved_densities resolved_density_derive_src)
qed

lemma densities_ok_subset: "densities_ok K' \<Longrightarrow> K \<subseteq> K' \<Longrightarrow> densities_ok K"
  by (auto simp: densities_ok_def)

lemma updateIcons_success:
  assumes "outcome (updateIcons icons dir folders) = None"
    and "synced (updateIcons icons dir folders) = Some m"
  obtains st where
    "(if hasAdaptive (validate_icons icons)
      then updateIconResourceForAdaptive (prepareIcons (checked_icons (validate_icons icons)))
             (initial_resource_map folders dir) dir
             (prepare_events (prepareIcons (checked_icons (validate_icons icons))))
      else (None, adaptive_start (initial_resource_map folders dir)
             (prepare_events (prepareIcons (checked_icons (validate_icons icons)))))) = (None, st)"
    "updateIconResourceForLegacy (prepareIcons (checked_icons (validate_icons icons)))
       (resourceMap st) dir = (None, m)"
    "run_written (updateIcons icons dir folders) = written st"
proof -
  let ?p = "prepareIcons (checked_icons (validate_icons icons))"
  let ?a = "if hasAdaptive (validate_icons icons)
      then updateIconResourceForAdaptive ?p (initial_resource_map folders dir) dir (prepare_events ?p)
      else (None, adaptive_start (initial_resource_map folders dir) (prepare_events ?p))"
  obtain e1 st where a: "?a = (e1, st)" by (cases ?a)
  obtain e2 m2 where l: "updateIconResourceForLegacy ?p (resourceMap st) dir = (e2, m2)"
    by (cases "updateIconResourceForLegacy ?p (resourceMap st) dir")
  from assms(2) have ne: "icons \<noteq> []" by (auto simp: updateIcons_def)
  from assms(1) ne have ok: "errorMessage (validate_icons icons) = []"
    by (auto simp: updateIcons_def Let_def split: if_splits)
  have run: "updateIcons icons dir folders =
      (case e1 of
                 Some e \<Rightarrow>
                   \<lparr>outcome = Some e, run_events = events st, run_written = written st,
                    synced = None\<rparr>
               | None \<Rightarrow>
                   (case (e2, m2) of
                      (Some e, m) \<Rightarrow>
                        \<lparr>outcome = Some e, run_events = events st, run_written = written st,
                         synced = None\<rparr>
                    | (None, m) \<Rightarrow>
                        \<lparr>outcome = None,
                         run_events = events st @ [(Verbose, ''Updating icons at '' @ dir)],
                         run_written = written st, synced = Some m\<rparr>))"
    unfolding updateIcons_def Let_def using ne ok by (simp add: a l cong: option.case_cong)
  from assms(1) run have e1: "e1 = None" by (cases e1) simp_all
  from assms(1) run e1 have e2: "e2 = None" by (cases e2) simp_all
  from assms(2) run e1 e2 have m2: "m2 = m" by simp
  show ?thesis
    by (rule that[OF a[unfolded e1] l[unfolded e2 m2]]) (simp add: run e1 e2)
qed

text \<open>
  C6. When \<open>updateIcons\<close> returns, no descriptor \<open>mipmap-<density>-v26/ic_launcher.xml\<close>
  written by the adaptive pass is mapped to \<open>null\<close> in the resource map handed to
  \<open>FileUpdater.updatePaths\<close>, so none is deleted by the synchronisation; and when no
  resolved density contains a slash or is another resolved density followed by \<open>-v26\<close>
  (as with the six standard densities), the descriptor path is no key of that map at
  all.
\<close>

theorem adaptive_descriptor_not_deleted:
  assumes "outcome (updateIcons icons dir folders) = None"
    and "synced (updateIcons icons dir folders) = Some m"
    and "p \<in> fst ` set (run_written (updateIcons icons dir folders))"
  shows "map_of m p \<noteq> Some None \<and>
         (densities_ok (set (resolved_densities icons)) \<longrightarrow> map_of m p = None)"
proof -
  let ?p = "prepareIcons (checked_icons (validate_icons icons))"
  let ?K = "fst ` set (android_icons ?p)"
  from assms(1,2) obtain st where
    a: "(if hasAdaptive (validate_icons icons)
      then updateIconResourceForAdaptive ?p (initial_resource_map folders dir) dir (prepare_events ?p)
      else (None, adaptive_start (initial_resource_map folders dir) (prepare_events ?p))) = (None, st)"
    and l: "updateIconResourceForLegacy ?p (resourceMap st) dir = (None, m)"
    and w: "run_written (updateIcons icons dir folders) = written st"
    by (rule updateIcons_success)
  from assms(3) w have pw: "p \<in> set (map fst (written st))" by simp
  have ad: "hasAdaptive (validate_icons icons)"
  proof (rule ccontr)
    assume "\<not> hasAdaptive (validate_icons icons)"
    with a have "written st = []" by (auto simp: adaptive_start_def)
    with pw show False by simp
  qed
  with a have a': "updateIconResourceForAdaptive ?p (initial_resource_map folders dir) dir
      (prepare_events ?p) = (None, st)" by simp
  note lw = legacy_pass_writes[OF l]
  from adaptive_pass_kept[OF a'] pw have "map_of (resourceMap st) p \<noteq> Some None"
    unfolding descriptors_kept_def list_all_iff by blast
  with lw have 1: "map_of m p \<noteq> Some None" by (rule legacy_writes_kept)
  have 2: "map_of m p = None" if "densities_ok (set (resolved_densities icons))"
  proof -
    from that checked_keys_resolved[of icons] have ok: "densities_ok ?K" by (rule densities_ok_subset)
    from adaptive_pass_absent[OF a' ok] pw
    have "map_of (resourceMap st) p = None" "p \<in> launcherXmlPath dir ` ?K"
      unfolding descriptors_absent_def list_all_iff by blast+
    then obtain d where "d \<in> ?K" "map_of (resourceMap st) (launcherXmlPath dir d) = None"
      "p = launcherXmlPath dir d" by auto
    with legacy_writes_absent[OF lw ok] show ?thesis by simp
  qed
  from 1 2 show ?thesis by simp
qed

theorem adaptive_descriptor_not_deleted_witness:
  "outcome (updateIcons sample_adaptive_input ''res'' sample_folders) = None \<and>
   map fst (run_written (updateIcons sample_adaptive_input ''res'' sample_folders))
     = [''res/mipmap-mdpi-v26/ic_launcher.xml''] \<and>
   map_of (initial_resource_map sample_folders ''res'') ''res/mipmap-mdpi-v26/ic_launcher.xml''
     = Some None \<and>
   map_of (the (synced (updateIcons sample_adaptive_input ''res'' sample_folders)))
     ''res/mipmap-mdpi-v26/ic_launcher.xml'' = None"
proof -
  have o: "outcome (updateIcons sample_adaptive_input ''res'' sample_folders) = None"
    by code_simp
  have s: "synced (updateIcons sample_adaptive_input ''res'' sample_folders)
      = Some (the (synced (updateIcons sample_adaptive_input ''res'' sample_folders)))"
    by code_simp
  have w: "map fst (run_written (updateIcons sample_adaptive_input ''res'' sample_folders))
     = [''res/mipmap-mdpi-v26/ic_launcher.xml'']"
    by code_simp
  then have p: "''res/mipmap-mdpi-v26/ic_launcher.xml''
      \<in> fst ` set (run_written (updateIcons sample_adaptive_input ''res'' sample_folders))"
    by (simp flip: set_map)
  have d: "densities_ok (set (resolved_densities sample_adaptive_input))"
    by code_simp
  have i: "map_of (initial_resource_map sample_folders ''res'') ''res/mipmap-mdpi-v26/ic_launcher.xml''
     = Some None"
    by code_simp
  from adaptive_descriptor_not_deleted [OF o s p] d o w i show ?thesis by simp
qed


text \<open>
  Without the condition on the density names the path can come back as a key: the
  legacy icon of a density named \<open>mdpi-v26\<close> with an \<open>.xml\<close> source is mapped onto the
  descriptor of \<open>mdpi\<close> (with a source, not with \<open>null\<close>).
\<close>

lemma descriptor_overwritten_by_v26_density:
  "outcome (updateIcons
      [adaptive_icon (Some ''mdpi'') ''@color/bg'' ''res/fg.png'', generic_icon ''mdpi-v26'' ''res/vector.xml'']
      ''res'' sample_folders) = None \<and>
   map_of (the (synced (updateIcons
      [adaptive_icon (Some ''mdpi'') ''@color/bg'' ''res/fg.png'', generic_icon ''mdpi-v26'' ''res/vector.xml'']
      ''res'' sample_folders))) ''res/mipmap-mdpi-v26/ic_launcher.xml'' = Some (Some ''res/vector.xml'')"
  by code_simp

end
